theory Spec2Isabelle
  imports Main "HOL-Library.Sublist" "HOL-Library.AList"
begin

section \<open>The RightMove scraper of the post "Using Python to work around a 2 month notice period"\<close>

text \<open>
  The repository's source is a Gatsby component followed by a blog post; the program the
  specification describes is the Python quoted in that post (\<^verbatim>\<open>rightmove_scraper.py\<close>,
  \<^verbatim>\<open>listing.py\<close>, \<^verbatim>\<open>sheet.py\<close>). Each quoted function is embedded below under its own
  name. Exceptions are values of \<open>error + 'a\<close>; the objects the code mutates or writes to
  (the module's \<^verbatim>\<open>config\<close>, the worksheet, the console, the mailer, the system clock) are
  fields of an explicit \<open>world\<close> that every operation takes and returns. Functions and
  constants the post does not quote (\<^verbatim>\<open>get_listing_urls\<close>, \<^verbatim>\<open>propertyMappings\<close>, ...) are
  fields of the record \<open>env\<close>, or are modelled from the specification where a claim needs
  what they compute; the library calls (\<^verbatim>\<open>configparser\<close>, \<^verbatim>\<open>datetime\<close>, \<^verbatim>\<open>urlencode\<close>,
  \<^verbatim>\<open>textwrap.dedent\<close>, \<^verbatim>\<open>gspread\<close>) are modelled after CPython 3 and the libraries' own
  documentation.
\<close>

subsection \<open>Exceptions\<close>

datatype error =
    NameError string
  | TypeError
  | ValueError
  | OverflowError
  | KeyError string
  | NoSectionError string
  | NoOptionError string string
  | ConnectionError string

subsection \<open>Characters and numbers as Python prints and reads them\<close>

definition is_digit :: "char \<Rightarrow> bool" where
  "is_digit c = (c \<in> set ''0123456789'')"

definition digit_val :: "char \<Rightarrow> nat" where
  "digit_val c = (case map_of (zip ''0123456789'' [0, 1, 2, 3, 4, 5, 6, 7, 8, 9]) c of
                    Some v \<Rightarrow> v | None \<Rightarrow> 0)"

definition digit_char :: "nat \<Rightarrow> char" where
  "digit_char n = ''0123456789'' ! (n mod 10)"

text \<open>\<^verbatim>\<open>str(n)\<close> of a non-negative integer, as an f-string field prints it.\<close>

fun str_nat :: "nat \<Rightarrow> string" where
  "str_nat n = (if n < 10 then [digit_char n] else str_nat (n div 10) @ [digit_char n])"

declare str_nat.simps [simp del]

definition lower_char :: "char \<Rightarrow> char" where
  "lower_char c = (case map_of (zip ''ABCDEFGHIJKLMNOPQRSTUVWXYZ'' ''abcdefghijklmnopqrstuvwxyz'') c of
                     Some l \<Rightarrow> l | None \<Rightarrow> c)"

text \<open>\<^verbatim>\<open>str.lower\<close> on ASCII text.\<close>

definition lower :: "string \<Rightarrow> string" where
  "lower s = map lower_char s"

text \<open>The value of a string of decimal digits, most significant first.\<close>

definition digits_val :: "string \<Rightarrow> nat" where
  "digits_val s = foldl (\<lambda>acc c. 10 * acc + digit_val c) 0 s"

text \<open>
  \<^verbatim>\<open>int(s)\<close> on a string: surrounding blanks are stripped, one sign is allowed, and the
  digits may be separated by single underscores. Anything else raises \<^verbatim>\<open>ValueError\<close>.
\<close>

definition is_space :: "char \<Rightarrow> bool" where
  "is_space c = (c \<in> set [CHR '' '', CHR 0x09, CHR 0x0A, CHR 0x0B, CHR 0x0C, CHR 0x0D])"

definition strip :: "string \<Rightarrow> string" where
  "strip s = rev (dropWhile is_space (rev (dropWhile is_space s)))"

fun int_digits :: "string \<Rightarrow> bool" where
  "int_digits [] = False"
| "int_digits [c] = is_digit c"
| "int_digits (c # d # s) =
     (is_digit c \<and> (if d = CHR ''_'' then int_digits s else int_digits (d # s)))"

definition py_int :: "string \<Rightarrow> error + int" where
  "py_int s =
     (let t = strip s;
          (neg, body) = (case t of
                           c # r \<Rightarrow> if c = CHR ''-'' then (True, r)
                                    else if c = CHR ''+'' then (False, r) else (False, t)
                         | [] \<Rightarrow> (False, t))
      in if int_digits body
         then (let v = int (digits_val (filter is_digit body)) in Inr (if neg then - v else v))
         else Inl ValueError)"

subsection \<open>Calendar dates (\<^verbatim>\<open>datetime.date\<close>)\<close>

record date =
  year :: nat
  month :: nat
  day :: nat

record datetime =
  dt_date :: date
  hour :: nat
  minute :: nat
  second :: nat
  microsecond :: nat

definition is_leap :: "nat \<Rightarrow> bool" where
  "is_leap y = (y mod 4 = 0 \<and> (y mod 100 \<noteq> 0 \<or> y mod 400 = 0))"

definition days_in_month :: "nat \<Rightarrow> nat \<Rightarrow> nat" where
  "days_in_month y m =
     (if m = 2 \<and> is_leap y then 29
      else [0, 31, 28, 31, 30, 31, 30, 31, 31, 30, 31, 30, 31] ! m)"

definition days_before_year :: "nat \<Rightarrow> nat" where
  "days_before_year y = (let p = y - 1 in p * 365 + p div 4 - p div 100 + p div 400)"

definition days_before_month :: "nat \<Rightarrow> nat \<Rightarrow> nat" where
  "days_before_month y m =
     [0, 0, 31, 59, 90, 120, 151, 181, 212, 243, 273, 304, 334] ! m
       + (if 2 < m \<and> is_leap y then 1 else 0)"

text \<open>\<^verbatim>\<open>date.toordinal\<close>: 1 is the first of January of year 1.\<close>

definition toordinal :: "date \<Rightarrow> nat" where
  "toordinal d = days_before_year (year d) + days_before_month (year d) (month d) + day d"

definition MAXORDINAL :: nat where
  "MAXORDINAL = 3652059"

text \<open>\<^verbatim>\<open>date.fromordinal\<close>, step by step as CPython's \<^verbatim>\<open>_ord2ymd\<close>.\<close>

definition fromordinal :: "nat \<Rightarrow> date" where
  "fromordinal ordinal =
     (let n = ordinal - 1;
          n400 = n div 146097; n = n mod 146097;
          n100 = n div 36524; n = n mod 36524;
          n4 = n div 1461; n = n mod 1461;
          n1 = n div 365; n = n mod 365;
          y = n400 * 400 + 1 + n100 * 100 + n4 * 4 + n1
      in if n1 = 4 \<or> n100 = 4 then \<lparr>year = y - 1, month = 12, day = 31\<rparr>
         else
           (let leapyear = (n1 = 3 \<and> (n4 \<noteq> 24 \<or> n100 = 3));
                m = (n + 50) div 32;
                preceding = [0, 0, 31, 59, 90, 120, 151, 181, 212, 243, 273, 304, 334] ! m
                              + (if 2 < m \<and> leapyear then 1 else 0)
            in if n < preceding
               then (let m' = m - 1;
                         preceding' = preceding
                           - ([0, 31, 28, 31, 30, 31, 30, 31, 31, 30, 31, 30, 31] ! m'
                              + (if m' = 2 \<and> leapyear then 1 else 0))
                     in \<lparr>year = y, month = m', day = n - preceding' + 1\<rparr>)
               else \<lparr>year = y, month = m, day = n - preceding + 1\<rparr>))"

text \<open>The constructor \<^verbatim>\<open>date(year, month, day)\<close> checks its fields.\<close>

definition make_date :: "nat \<Rightarrow> nat \<Rightarrow> nat \<Rightarrow> error + date" where
  "make_date y m d =
     (if 1 \<le> y \<and> y \<le> 9999 \<and> 1 \<le> m \<and> m \<le> 12 \<and> 1 \<le> d \<and> d \<le> days_in_month y m
      then Inr \<lparr>year = y, month = m, day = d\<rparr>
      else Inl ValueError)"

text \<open>\<^verbatim>\<open>a > b\<close> on dates compares year, month and day in this order.\<close>

definition date_gt :: "date \<Rightarrow> date \<Rightarrow> bool" where
  "date_gt a b =
     (year b < year a \<or> (year a = year b \<and>
        (month b < month a \<or> (month a = month b \<and> day b < day a))))"

text \<open>
  \<^verbatim>\<open>datetime.timedelta(weeks=n)\<close> is a number of days, at most 999999999 in absolute value;
  \<^verbatim>\<open>date + timedelta\<close> is computed on ordinals and must stay within years 1 to 9999.
\<close>

definition timedelta_weeks :: "int \<Rightarrow> error + int" where
  "timedelta_weeks n = (if \<bar>7 * n\<bar> \<le> 999999999 then Inr (7 * n) else Inl OverflowError)"

definition date_add :: "date \<Rightarrow> int \<Rightarrow> error + date" where
  "date_add d delta_days =
     (let ordinal = int (toordinal d) + delta_days
      in if 0 < ordinal \<and> ordinal \<le> int MAXORDINAL then Inr (fromordinal (nat ordinal))
         else Inl OverflowError)"

definition pad2 :: "nat \<Rightarrow> string" where
  "pad2 n = (if n < 10 then CHR ''0'' # str_nat n else str_nat n)"

definition pad4 :: "nat \<Rightarrow> string" where
  "pad4 n = replicate (4 - length (str_nat n)) (CHR ''0'') @ str_nat n"

text \<open>
  \<^verbatim>\<open>d.strftime('%d/%m/%Y')\<close> on Linux, where the program runs: day and month take two
  digits, and the C library writes the year without padding.
\<close>

definition strftime_dmy :: "date \<Rightarrow> string" where
  "strftime_dmy d = pad2 (day d) @ ''/'' @ pad2 (month d) @ ''/'' @ str_nat (year d)"

text \<open>A date written with two digits for the day, two for the month and four for the year.\<close>

definition written_dmy :: "date \<Rightarrow> string" where
  "written_dmy d = pad2 (day d) @ ''/'' @ pad2 (month d) @ ''/'' @ pad4 (year d)"

text \<open>
  \<^verbatim>\<open>datetime.strptime(x, "%d/%m/%Y")\<close>. CPython turns the format into the regular expression
  \<^verbatim>\<open>(3[0-1]|[1-2]\d|0[1-9]|[1-9]| [1-9])/(1[0-2]|0[1-9]|[1-9])/(\d\d\d\d)\<close>, which must match
  the whole text; the three numbers must then make a date. Every failure is a
  \<^verbatim>\<open>ValueError\<close>.
\<close>

definition nonzero_digit :: "char \<Rightarrow> bool" where
  "nonzero_digit c = (c \<in> set ''123456789'')"

fun match_d :: "string \<Rightarrow> nat option" where
  "match_d [a] = (if nonzero_digit a then Some (digit_val a) else None)"
| "match_d [a, b] =
     (if a = CHR ''3'' \<and> (b = CHR ''0'' \<or> b = CHR ''1'') then Some (30 + digit_val b)
      else if (a = CHR ''1'' \<or> a = CHR ''2'') \<and> is_digit b then Some (10 * digit_val a + digit_val b)
      else if a = CHR ''0'' \<and> nonzero_digit b then Some (digit_val b)
      else if a = CHR '' '' \<and> nonzero_digit b then Some (digit_val b)
      else None)"
| "match_d s = None"

fun match_m :: "string \<Rightarrow> nat option" where
  "match_m [a] = (if nonzero_digit a then Some (digit_val a) else None)"
| "match_m [a, b] =
     (if a = CHR ''1'' \<and> (b = CHR ''0'' \<or> b = CHR ''1'' \<or> b = CHR ''2'') then Some (10 + digit_val b)
      else if a = CHR ''0'' \<and> nonzero_digit b then Some (digit_val b)
      else None)"
| "match_m s = None"

definition match_Y :: "string \<Rightarrow> nat option" where
  "match_Y s = (if length s = 4 \<and> list_all is_digit s then Some (digits_val s) else None)"

definition slash :: "char \<Rightarrow> bool" where
  "slash c = (c = CHR ''/'')"

definition strptime_dmy :: "string \<Rightarrow> error + date" where
  "strptime_dmy x =
     (case dropWhile (\<lambda>c. \<not> slash c) x of
        [] \<Rightarrow> Inl ValueError
      | _ # r1 \<Rightarrow>
         (case dropWhile (\<lambda>c. \<not> slash c) r1 of
            [] \<Rightarrow> Inl ValueError
          | _ # r2 \<Rightarrow>
             (case (match_d (takeWhile (\<lambda>c. \<not> slash c) x),
                    match_m (takeWhile (\<lambda>c. \<not> slash c) r1),
                    match_Y r2) of
                (Some d, Some m, Some y) \<Rightarrow> make_date y m d
              | _ \<Rightarrow> Inl ValueError)))"

subsection \<open>Text helpers: \<^verbatim>\<open>urlencode\<close> and \<^verbatim>\<open>textwrap.dedent\<close>\<close>

definition str_int :: "int \<Rightarrow> string" where
  "str_int i = (if i < 0 then CHR ''-'' # str_nat (nat (- i)) else str_nat (nat i))"

definition always_safe :: "char \<Rightarrow> bool" where
  "always_safe c =
     (c \<in> set ''ABCDEFGHIJKLMNOPQRSTUVWXYZabcdefghijklmnopqrstuvwxyz0123456789_.-~'')"

definition hex_digit :: "nat \<Rightarrow> char" where
  "hex_digit n = ''0123456789ABCDEF'' ! (n mod 16)"

text \<open>\<^verbatim>\<open>urllib.parse.quote_plus\<close> with no extra safe characters, on a byte string.\<close>

definition quote_plus :: "string \<Rightarrow> string" where
  "quote_plus s =
     concat (map (\<lambda>c. if always_safe c then [c]
                        else if c = CHR '' '' then ''+''
                        else [CHR ''%'', hex_digit (of_char c div 16), hex_digit (of_char c)]) s)"

fun join :: "string \<Rightarrow> string list \<Rightarrow> string" where
  "join sep [] = []"
| "join sep [l] = l"
| "join sep (l # m # ls) = l @ sep @ join sep (m # ls)"

text \<open>\<^verbatim>\<open>urlencode\<close> of a list of pairs: \<^verbatim>\<open>k=v\<close> fields joined by \<^verbatim>\<open>&\<close>.\<close>

definition urlencode :: "(string \<times> string) list \<Rightarrow> string" where
  "urlencode query = join ''&'' (map (\<lambda>(k, v). quote_plus k @ ''='' @ quote_plus v) query)"

definition newline :: char where
  "newline = CHR 0x0A"

text \<open>\<^verbatim>\<open>text.split('\n')\<close>: never empty, and \<open>join [newline]\<close> is its inverse.\<close>

fun split_lines :: "string \<Rightarrow> string list" where
  "split_lines [] = [[]]"
| "split_lines (c # cs) =
     (if c = newline then [] # split_lines cs
      else (case split_lines cs of l # ls \<Rightarrow> (c # l) # ls | [] \<Rightarrow> [[c]]))"

definition blank :: "char \<Rightarrow> bool" where
  "blank c = (c = CHR '' '' \<or> c = CHR 0x09)"

text \<open>One step of \<^verbatim>\<open>dedent\<close>'s loop over the indents: the margin after seeing one more.\<close>

definition narrow_margin :: "string \<Rightarrow> string \<Rightarrow> string" where
  "narrow_margin margin indent =
     (if prefix margin indent then margin
      else if prefix indent margin then indent
      else longest_common_prefix margin indent)"

text \<open>
  \<^verbatim>\<open>textwrap.dedent\<close>: lines of blanks only are emptied; the margin is the longest run of
  blanks that starts every line holding something else; the margin is cut from the start
  of each line that has it.
\<close>

definition dedent :: "string \<Rightarrow> string" where
  "dedent txt =
     (let ls = map (\<lambda>l. if l \<noteq> [] \<and> list_all blank l then [] else l) (split_lines txt);
          indents = map (takeWhile blank) (filter (\<lambda>l. dropWhile blank l \<noteq> []) ls);
          margin = (case indents of [] \<Rightarrow> [] | i # rest \<Rightarrow> foldl narrow_margin i rest)
      in if margin \<noteq> []
         then join [newline] (map (\<lambda>l. if prefix margin l then drop (length margin) l else l) ls)
         else join [newline] ls)"

subsection \<open>Configuration (\<^verbatim>\<open>configparser.ConfigParser\<close>)\<close>

text \<open>
  The parsed \<^verbatim>\<open>config.ini\<close>: sections in file order, each with its options. The parser
  stores option names in lower case and looks them up in lower case. A \<^verbatim>\<open>DEFAULT\<close>
  section and value interpolation are not modelled.
\<close>

type_synonym config_parser = "(string \<times> (string \<times> string) list) list"

definition has_section :: "config_parser \<Rightarrow> string \<Rightarrow> bool" where
  "has_section cfg s = (map_of cfg s \<noteq> None)"

text \<open>\<^verbatim>\<open>config.items(section)\<close> builds a new list of pairs at every call.\<close>

definition config_items :: "config_parser \<Rightarrow> string \<Rightarrow> error + (string \<times> string) list" where
  "config_items cfg s = (case map_of cfg s of None \<Rightarrow> Inl (NoSectionError s) | Some opts \<Rightarrow> Inr opts)"

text \<open>\<^verbatim>\<open>config.get(section, option)\<close>, called with no fallback: a missing option raises.\<close>

definition config_get :: "config_parser \<Rightarrow> string \<Rightarrow> string \<Rightarrow> error + string" where
  "config_get cfg s opt =
     (case map_of cfg s of
        None \<Rightarrow> Inl (NoSectionError s)
      | Some opts \<Rightarrow>
         (case map_of opts (lower opt) of
            None \<Rightarrow> Inl (NoOptionError (lower opt) s)
          | Some v \<Rightarrow> Inr v))"

text \<open>\<^verbatim>\<open>dict(pairs)\<close>: a key keeps the place of its first pair and the value of its last.\<close>

definition dict :: "(string \<times> string) list \<Rightarrow> (string \<times> string) list" where
  "dict pairs = foldl (\<lambda>d (k, v). AList.update k v d) [] pairs"

subsection \<open>Listings, the worksheet and the world\<close>

text \<open>
  A \<^verbatim>\<open>Listing\<close> object with the attributes \<^verbatim>\<open>scrape_details\<close> assigns. The three letting
  fields are \<^verbatim>\<open>letting_information.get(...)\<close>: a text, or \<^verbatim>\<open>None\<close>.
\<close>

record listing =
  url :: string
  date_scraped :: string
  description :: string
  price :: string
  location :: string
  nearest_stations :: "string list"
  date_available :: "string option"
  furnished :: "string option"
  deposit :: "string option"

text \<open>
  \<^verbatim>\<open>Listing(url)\<close>: only \<^verbatim>\<open>url\<close> is assigned; the other fields hold empty values until
  \<^verbatim>\<open>scrape_details\<close> assigns them, which \<^verbatim>\<open>scrape\<close> does for every listing it returns.
\<close>

definition Listing :: "string \<Rightarrow> listing" where
  "Listing u = \<lparr>url = u, date_scraped = [], description = [], price = [], location = [],
                 nearest_stations = [], date_available = None, furnished = None, deposit = None\<rparr>"

text \<open>A worksheet cell holds what \<^verbatim>\<open>build_row\<close> puts in a row: an attribute's value.\<close>

datatype cell = CNone | CStr string | CList "string list"

definition cell_of :: "string option \<Rightarrow> cell" where
  "cell_of v = (case v of None \<Rightarrow> CNone | Some s \<Rightarrow> CStr s)"

text \<open>\<^verbatim>\<open>vars(listing)\<close>: the attribute dictionary.\<close>

definition vars :: "listing \<Rightarrow> (string \<times> cell) list" where
  "vars l =
     [(''url'', CStr (url l)),
      (''date_scraped'', CStr (date_scraped l)),
      (''description'', CStr (description l)),
      (''price'', CStr (price l)),
      (''location'', CStr (location l)),
      (''nearest_stations'', CList (nearest_stations l)),
      (''date_available'', cell_of (date_available l)),
      (''furnished'', cell_of (furnished l)),
      (''deposit'', cell_of (deposit l))]"

text \<open>The names of the attributes of a listing: the keys of \<^verbatim>\<open>vars(listing)\<close>.\<close>

definition listing_attributes :: "string list" where
  "listing_attributes =
     [''url'', ''date_scraped'', ''description'', ''price'', ''location'',
      ''nearest_stations'', ''date_available'', ''furnished'', ''deposit'']"

record response =
  status_code :: nat
  response_text :: string

text \<open>
  What the program changes or writes to. \<open>list_objects\<close> is the store of the Python
  lists a function allocates and then mutates (an address is an index); \<open>clock_reads\<close>
  counts the calls of \<^verbatim>\<open>datetime.now\<close> and \<^verbatim>\<open>date.today\<close> so far; \<open>outbox\<close> holds the
  messages handed to the mailer, each with the configuration the mailer was built from.
\<close>

record world =
  config :: config_parser
  worksheet :: "cell list list"
  stdout :: "string list"
  outbox :: "((string \<times> string) list \<times> string) list"
  list_objects :: "(string \<times> string) list list"
  clock_reads :: nat

text \<open>
  What the quoted code reads and the post does not quote: the system clock (its
  \<open>k\<close>-th reading), the remote site (\<^verbatim>\<open>requests.get\<close>, which raises when the request does
  not complete and otherwise returns a response whatever its status), the module's
  constants, and the helper methods that read a parsed page.
\<close>

record env =
  clock :: "nat \<Rightarrow> datetime"
  http_get :: "string \<Rightarrow> error + response"
  base_search_url :: string
  sheet_name :: string
  propertyMappings :: "(string \<times> string) list"
  get_location_name :: "string \<Rightarrow> string"
  get_listing_urls :: "string \<Rightarrow> string list"
  get_letting_information :: "string \<Rightarrow> (string \<times> string) list"
  get_description :: "string \<Rightarrow> string"
  get_price :: "string \<Rightarrow> string"
  get_address :: "string \<Rightarrow> string"
  get_nearest_stations :: "string \<Rightarrow> string list"

definition py_print :: "string \<Rightarrow> world \<Rightarrow> world" where
  "py_print s w = w\<lparr>stdout := stdout w @ [s]\<rparr>"

text \<open>One reading of the clock: the date it shows, and the world with the reading counted.\<close>

definition read_clock :: "env \<Rightarrow> world \<Rightarrow> datetime \<times> world" where
  "read_clock e w = (clock e (clock_reads w), w\<lparr>clock_reads := Suc (clock_reads w)\<rparr>)"

text \<open>Allocating a list object, and \<^verbatim>\<open>list.append\<close> on the object at an address.\<close>

definition new_list :: "(string \<times> string) list \<Rightarrow> world \<Rightarrow> nat \<times> world" where
  "new_list xs w = (length (list_objects w), w\<lparr>list_objects := list_objects w @ [xs]\<rparr>)"

definition list_append :: "nat \<Rightarrow> string \<times> string \<Rightarrow> world \<Rightarrow> world" where
  "list_append a x w = w\<lparr>list_objects := (list_objects w)[a := list_objects w ! a @ [x]]\<rparr>"

subsection \<open>\<^verbatim>\<open>sheet.py\<close>: the worksheet\<close>

text \<open>
  \<^verbatim>\<open>build_row\<close>: one cell per entry of \<^verbatim>\<open>propertyMappings\<close> (a dictionary from column title
  to attribute name, here its items in order), in that order. An attribute the listing
  does not have raises \<^verbatim>\<open>KeyError\<close>.
\<close>

fun build_row_loop :: "(string \<times> cell) list \<Rightarrow> (string \<times> string) list \<Rightarrow> cell list \<Rightarrow> error + cell list" where
  "build_row_loop listing_details [] row = Inr row"
| "build_row_loop listing_details ((title, attribute) # rest) row =
     (case map_of listing_details attribute of
        None \<Rightarrow> Inl (KeyError attribute)
      | Some v \<Rightarrow> build_row_loop listing_details rest (row @ [v]))"

definition build_row :: "env \<Rightarrow> listing \<Rightarrow> error + cell list" where
  "build_row e l = build_row_loop (vars l) (propertyMappings e) []"

text \<open>
  \<^verbatim>\<open>worksheet.insert_row(row, index)\<close> of gspread: the row becomes row number \<open>index\<close>
  (counted from 1) and the rows from there on move down. The model keeps the rows down
  to the last one written; rows of the grid between them and \<open>index\<close> are empty.
\<close>

definition insert_row :: "cell list \<Rightarrow> nat \<Rightarrow> cell list list \<Rightarrow> cell list list" where
  "insert_row row index rows =
     take (index - 1) rows @ replicate (index - 1 - length rows) [] @ [row] @ drop (index - 1) rows"

text \<open>
  The column of the worksheet that holds the listings' URLs: the place of the attribute
  \<^verbatim>\<open>url\<close> in the rows \<^verbatim>\<open>build_row\<close> writes, if it has one.
\<close>

fun url_column :: "(string \<times> string) list \<Rightarrow> nat option" where
  "url_column [] = None"
| "url_column ((title, attribute) # rest) =
     (if attribute = ''url'' then Some 0 else map_option Suc (url_column rest))"

text \<open>
  Modelled from the spec: \<^verbatim>\<open>Sheet.does_cell_exist_with_value\<close> is not in the source. The
  specification's \<^verbatim>\<open>exists(url)\<close> is "true if any existing row's URL column equals
  \<^verbatim>\<open>url\<close> exactly"; the existence check is "a linear scan over the URL column".
\<close>

definition does_cell_exist_with_value :: "env \<Rightarrow> world \<Rightarrow> string \<Rightarrow> bool" where
  "does_cell_exist_with_value e w v =
     (case url_column (propertyMappings e) of
        None \<Rightarrow> False
      | Some c \<Rightarrow> list_ex (\<lambda>row. c < length row \<and> row ! c = CStr v) (worksheet w))"

text \<open>The loop of \<^verbatim>\<open>add_listings\<close>, with its two counters.\<close>

fun add_listings_loop :: "env \<Rightarrow> listing list \<Rightarrow> nat \<Rightarrow> nat \<Rightarrow> world \<Rightarrow> (error + nat \<times> nat) \<times> world" where
  "add_listings_loop e [] duplicates written w = (Inr (written, duplicates), w)"
| "add_listings_loop e (l # ls) duplicates written w =
     (let is_existing_listing = does_cell_exist_with_value e w (url l)
      in if \<not> is_existing_listing
         then (case build_row e l of
                 Inl err \<Rightarrow> (Inl err, w)
               | Inr row \<Rightarrow>
                  add_listings_loop e ls duplicates (written + 1)
                    (w\<lparr>worksheet := insert_row row 2 (worksheet w)\<rparr>))
         else add_listings_loop e ls (duplicates + 1) written w)"

definition add_listings :: "env \<Rightarrow> listing list \<Rightarrow> world \<Rightarrow> (error + nat \<times> nat) \<times> world" where
  "add_listings e listings w =
     add_listings_loop e listings 0 0 (py_print ''Writing listings to sheet...'' w)"

subsection \<open>\<^verbatim>\<open>rightmove_scraper.py\<close>: persistence and notification\<close>

text \<open>
  Modelled from the spec: the class \<^verbatim>\<open>Mailer\<close> is not in the source. The notifier is to
  "compose and dispatch a single message to a configured recipient channel": one call
  of \<^verbatim>\<open>send_mail\<close> hands one message to the channel, recorded in \<open>outbox\<close>.
\<close>

definition send_mail :: "(string \<times> string) list \<Rightarrow> string \<Rightarrow> world \<Rightarrow> world" where
  "send_mail mailer_config message w = w\<lparr>outbox := outbox w @ [(mailer_config, message)]\<rparr>"

text \<open>The f-string of \<^verbatim>\<open>process_listings\<close>, before \<^verbatim>\<open>dedent\<close>.\<close>

definition message_template :: "nat \<Rightarrow> nat \<Rightarrow> nat \<Rightarrow> string \<Rightarrow> string" where
  "message_template eligible written duplicates sheet =
     [newline] @ replicate 12 (CHR '' '') @ str_nat eligible @ '' eligible properties were found.''
     @ [newline] @ replicate 12 (CHR '' '') @ str_nat written
     @ '' new properties were added to the worksheet '' @ sheet @ ''.''
     @ [newline] @ replicate 12 (CHR '' '') @ str_nat duplicates
     @ '' properties already existed on the sheet and were ignored.''
     @ [newline] @ replicate 12 (CHR '' '')"

definition process_listings :: "env \<Rightarrow> listing list \<Rightarrow> world \<Rightarrow> (error + unit) \<times> world" where
  "process_listings e listings w =
     (case add_listings e listings w of
        (Inl err, w1) \<Rightarrow> (Inl err, w1)
      | (Inr (written, duplicates), w1) \<Rightarrow>
         (let message = dedent (message_template (length listings) written duplicates (sheet_name e));
              w2 = py_print message w1
          in if has_section (config w2) ''mailer'' \<and> written \<noteq> 0
             then (case config_items (config w2) ''mailer'' of
                     Inl err \<Rightarrow> (Inl err, w2)
                   | Inr its \<Rightarrow> (Inr (), send_mail (dict its) message w2))
             else (Inr (), w2)))"

subsection \<open>\<^verbatim>\<open>listing.py\<close> and \<^verbatim>\<open>rightmove_scraper.py\<close>: searching and scraping\<close>

text \<open>
  \<^verbatim>\<open>build_search_url\<close>: \<^verbatim>\<open>config.items('filters')\<close> is a new list object, \<^verbatim>\<open>append\<close> changes
  that object, and \<^verbatim>\<open>urlencode\<close> reads it.
\<close>

definition build_search_url :: "env \<Rightarrow> string \<Rightarrow> world \<Rightarrow> (error + string) \<times> world" where
  "build_search_url e location_identifier w =
     (case config_items (config w) ''filters'' of
        Inl err \<Rightarrow> (Inl err, w)
      | Inr its \<Rightarrow>
         (let (parameters, w1) = new_list its w;
              w2 = list_append parameters (''locationIdentifier'', location_identifier) w1;
              search_url = base_search_url e @ urlencode (list_objects w2 ! parameters)
          in (Inr search_url, w2)))"

text \<open>
  \<^verbatim>\<open>Listing.scrape_details\<close>. The page is fetched with \<^verbatim>\<open>requests.get(self.url).text\<close>; the
  parsed page is represented by its text. The post elides the end of the method.
\<close>

definition scrape_details :: "env \<Rightarrow> listing \<Rightarrow> world \<Rightarrow> (error + listing) \<times> world" where
  "scrape_details e l w =
     (case http_get e (url l) of
        Inl err \<Rightarrow> (Inl err, w)
      | Inr r \<Rightarrow>
         (let dom = response_text r;
              letting_information = get_letting_information e dom;
              (now, w1) = read_clock e w
          in (Inr (l\<lparr>date_scraped := strftime_dmy (dt_date now),
                     description := get_description e dom,
                     price := get_price e dom,
                     location := get_address e dom,
                     nearest_stations := get_nearest_stations e dom,
                     date_available := map_of letting_information ''date_available'',
                     furnished := map_of letting_information ''furnishing'',
                     deposit := map_of letting_information ''deposit''\<rparr>), w1)))"

text \<open>The loop \<^verbatim>\<open>for listing in listings: listing.scrape_details()\<close>.\<close>

fun scrape_all_details :: "env \<Rightarrow> listing list \<Rightarrow> world \<Rightarrow> (error + listing list) \<times> world" where
  "scrape_all_details e [] w = (Inr [], w)"
| "scrape_all_details e (l # ls) w =
     (case scrape_details e l w of
        (Inl err, w1) \<Rightarrow> (Inl err, w1)
      | (Inr l', w1) \<Rightarrow>
         (case scrape_all_details e ls w1 of
            (Inl err, w2) \<Rightarrow> (Inl err, w2)
          | (Inr ls', w2) \<Rightarrow> (Inr (l' # ls'), w2)))"

definition scrape :: "env \<Rightarrow> string \<Rightarrow> world \<Rightarrow> (error + listing list) \<times> world" where
  "scrape e search_url w =
     (case http_get e search_url of
        Inl err \<Rightarrow> (Inl err, w)
      | Inr r \<Rightarrow>
         (let listing_dom = response_text r;
              location_name = get_location_name e listing_dom;
              w1 = py_print (''Scraping properties in '' @ location_name @ ''...'') w;
              listing_urls = get_listing_urls e listing_dom;
              listings = map Listing listing_urls
          in scrape_all_details e listings w1))"

text \<open>
  Modelled from the spec: \<^verbatim>\<open>remove_duplicate_listings\<close> is not in the source. The
  specification: "deduplicate the full candidate sequence by \<^verbatim>\<open>url\<close>, keeping the first
  occurrence; insertion order otherwise preserved".
\<close>

fun dedup_by_url :: "string list \<Rightarrow> listing list \<Rightarrow> listing list" where
  "dedup_by_url seen [] = []"
| "dedup_by_url seen (l # ls) =
     (if url l \<in> set seen then dedup_by_url seen ls else l # dedup_by_url (url l # seen) ls)"

definition remove_duplicate_listings :: "listing list \<Rightarrow> listing list" where
  "remove_duplicate_listings listings = dedup_by_url [] listings"

text \<open>The loop of \<^verbatim>\<open>scrape_listings\<close> over the location identifiers, extending \<^verbatim>\<open>listings\<close>.\<close>

fun scrape_locations :: "env \<Rightarrow> string list \<Rightarrow> listing list \<Rightarrow> world \<Rightarrow> (error + listing list) \<times> world" where
  "scrape_locations e [] listings w = (Inr listings, w)"
| "scrape_locations e (identifier # rest) listings w =
     (case build_search_url e identifier w of
        (Inl err, w1) \<Rightarrow> (Inl err, w1)
      | (Inr search_url, w1) \<Rightarrow>
         (case scrape e search_url w1 of
            (Inl err, w2) \<Rightarrow> (Inl err, w2)
          | (Inr found, w2) \<Rightarrow> scrape_locations e rest (listings @ found) w2))"

definition scrape_listings :: "env \<Rightarrow> string list \<Rightarrow> world \<Rightarrow> (error + listing list) \<times> world" where
  "scrape_listings e location_identifiers w =
     (case scrape_locations e location_identifiers [] w of
        (Inl err, w1) \<Rightarrow> (Inl err, w1)
      | (Inr listings, w1) \<Rightarrow> (Inr (remove_duplicate_listings listings), w1))"

subsection \<open>\<^verbatim>\<open>rightmove_scraper.py\<close>: filtering by availability\<close>

text \<open>
  The local helper \<^verbatim>\<open>convert_date\<close>, applied to a listing's \<^verbatim>\<open>date_available\<close>:
  \<^verbatim>\<open>strptime\<close> raises \<^verbatim>\<open>TypeError\<close> on \<^verbatim>\<open>None\<close> and \<^verbatim>\<open>ValueError\<close> on a text that is not a date.
\<close>

definition convert_date :: "string option \<Rightarrow> error + date" where
  "convert_date x = (case x of None \<Rightarrow> Inl TypeError | Some s \<Rightarrow> strptime_dmy s)"

text \<open>
  The comprehension of \<^verbatim>\<open>get_listings_available_after_n_weeks\<close> calls \<^verbatim>\<open>convert_daye\<close>.
  The source binds no such name (the helper defined two lines above is
  \<^verbatim>\<open>convert_date\<close>), so the call raises \<^verbatim>\<open>NameError\<close>.
\<close>

definition convert_daye :: "string option \<Rightarrow> error + date" where
  "convert_daye x = Inl (NameError ''convert_daye'')"

datatype availability = Unspecified | Immediate | Dated date

text \<open>
  Modelled from the spec: the classification of an availability text. "empty/missing
  \<open>\<rightarrow>\<close> unspecified; textual "now" (case-insensitive) \<open>\<rightarrow>\<close> immediate; any other text
  \<open>\<rightarrow>\<close> dated, attempting to parse it as a calendar date in the day/month/year order;
  a parse failure here degrades the value to unspecified rather than raising".
\<close>

definition classify_availability :: "string option \<Rightarrow> availability" where
  "classify_availability x =
     (case x of
        None \<Rightarrow> Unspecified
      | Some s \<Rightarrow>
         if s = [] then Unspecified
         else if lower s = ''now'' then Immediate
         else (case strptime_dmy s of Inr d \<Rightarrow> Dated d | Inl err \<Rightarrow> Unspecified))"

text \<open>
  Modelled from the spec: \<^verbatim>\<open>Listing.has_date_available\<close> is not in the source. The
  specification's eligibility rule starts "a Listing passes only if its availability is
  dated": the method answers whether the availability is a date.
\<close>

definition has_date_available :: "listing \<Rightarrow> bool" where
  "has_date_available l =
     (case classify_availability (date_available l) of Dated d \<Rightarrow> True | _ \<Rightarrow> False)"

text \<open>
  The list comprehension, with the function it applies to \<^verbatim>\<open>date_available\<close> as a
  parameter: listings are visited in order, \<^verbatim>\<open>and\<close> evaluates its right side only when
  \<^verbatim>\<open>has_date_available\<close> holds, and the first exception ends the comprehension.
\<close>

fun available_after_comprehension ::
  "(string option \<Rightarrow> error + date) \<Rightarrow> date \<Rightarrow> listing list \<Rightarrow> error + listing list" where
  "available_after_comprehension conv available_after [] = Inr []"
| "available_after_comprehension conv available_after (l # ls) =
     (if has_date_available l
      then (case conv (date_available l) of
              Inl err \<Rightarrow> Inl err
            | Inr d \<Rightarrow>
               (case available_after_comprehension conv available_after ls of
                  Inl err \<Rightarrow> Inl err
                | Inr kept \<Rightarrow> Inr (if date_gt d available_after then l # kept else kept)))
      else available_after_comprehension conv available_after ls)"

text \<open>
  The body of \<^verbatim>\<open>get_listings_available_after_n_weeks\<close>, for any function called in the
  comprehension.
\<close>

definition listings_available_after ::
  "(string option \<Rightarrow> error + date) \<Rightarrow> env \<Rightarrow> int \<Rightarrow> listing list \<Rightarrow> world \<Rightarrow> (error + listing list) \<times> world" where
  "listings_available_after conv e n_weeks listings w =
     (if length listings = 0 then (Inr listings, w)
      else
        (let w1 = py_print (''Filtering listings down only those available after ''
                             @ str_int n_weeks @ '' weeks from now'') w;
             (now, w2) = read_clock e w1;
             today = dt_date now
         in case timedelta_weeks n_weeks of
              Inl err \<Rightarrow> (Inl err, w2)
            | Inr delta \<Rightarrow>
               (case date_add today delta of
                  Inl err \<Rightarrow> (Inl err, w2)
                | Inr available_after \<Rightarrow>
                   (available_after_comprehension conv available_after listings, w2))))"

text \<open>\<^verbatim>\<open>get_listings_available_after_n_weeks\<close> as the source has it.\<close>

definition get_listings_available_after_n_weeks ::
  "env \<Rightarrow> int \<Rightarrow> listing list \<Rightarrow> world \<Rightarrow> (error + listing list) \<times> world" where
  "get_listings_available_after_n_weeks = listings_available_after convert_daye"

definition filter_listings :: "env \<Rightarrow> listing list \<Rightarrow> world \<Rightarrow> (error + listing list) \<times> world" where
  "filter_listings e listings w =
     (case config_get (config w) ''filters'' ''availableAfterNWeeks'' of
        Inl err \<Rightarrow> (Inl err, w)
      | Inr v \<Rightarrow>
         if v \<noteq> []
         then (case config_get (config w) ''filters'' ''availableAfterNWeeks'' of
                 Inl err \<Rightarrow> (Inl err, w)
               | Inr v' \<Rightarrow>
                  (case py_int v' of
                     Inl err \<Rightarrow> (Inl err, w)
                   | Inr n_weeks \<Rightarrow> get_listings_available_after_n_weeks e n_weeks listings w))
         else (Inr listings, w))"

subsection \<open>Sites that differ in status codes only\<close>

text \<open>
  Two sites give the same bodies when every request that fails on one fails the same way
  on the other, and every request answered by one is answered by the other with the same
  text: they differ at most in the status codes of their responses.
\<close>

definition same_bodies :: "(string \<Rightarrow> error + response) \<Rightarrow> (string \<Rightarrow> error + response) \<Rightarrow> bool" where
  "same_bodies g h = (\<forall>u. map_sum id response_text (g u) = map_sum id response_text (h u))"

subsection \<open>Example data\<close>

text \<open>
  A small site, clock, configuration and worksheet on which the theorems below are
  run: one search page listing \<^verbatim>\<open>u1\<close>, \<^verbatim>\<open>u2\<close> and \<^verbatim>\<open>u1\<close> again, a worksheet that already
  holds \<^verbatim>\<open>u2\<close>, and a clock that shows the second of November 2026.
\<close>

definition example_clock :: "nat \<Rightarrow> datetime" where
  "example_clock k =
     \<lparr>dt_date = \<lparr>year = 2026, month = 11, day = 2\<rparr>,
      hour = 9, minute = k mod 60, second = 0, microsecond = 0\<rparr>"

definition example_site :: "string \<Rightarrow> error + response" where
  "example_site u =
     (if u = ''https://example.test/find.html?availableafternweeks=7&radius=1&locationIdentifier=REGION%5E1''
      then Inr \<lparr>status_code = 200, response_text = ''search page 1''\<rparr>
      else if u = ''u1'' then Inr \<lparr>status_code = 200, response_text = ''page of u1''\<rparr>
      else if u = ''u2'' then Inr \<lparr>status_code = 404, response_text = ''page of u2''\<rparr>
      else Inl (ConnectionError u))"

definition example_env :: env where
  "example_env =
     \<lparr>clock = example_clock,
      http_get = example_site,
      base_search_url = ''https://example.test/find.html?'',
      sheet_name = ''Sheet1'',
      propertyMappings = [(''URL'', ''url''), (''Price'', ''price''), (''Available'', ''date_available'')],
      get_location_name = (\<lambda>dom. ''Somewhere''),
      get_listing_urls = (\<lambda>dom. if dom = ''search page 1'' then [''u1'', ''u2'', ''u1''] else []),
      get_letting_information =
        (\<lambda>dom. if dom = ''page of u1'' then [(''date_available'', ''22/12/2026'')]
                else [(''date_available'', ''Now'')]),
      get_description = (\<lambda>dom. ''2 bedroom flat''),
      get_price = (\<lambda>dom. ''1400''),
      get_address = (\<lambda>dom. ''1 High Street''),
      get_nearest_stations = (\<lambda>dom. [])\<rparr>"

definition example_config :: config_parser where
  "example_config =
     [(''filters'', [(''availableafternweeks'', ''7''), (''radius'', ''1'')]),
      (''mailer'', [(''to'', ''me@example.test'')])]"

definition example_world :: world where
  "example_world =
     \<lparr>config = example_config,
      worksheet = [[CStr ''URL'', CStr ''Price'', CStr ''Available''],
                   [CStr ''u2'', CStr ''1350'', CNone]],
      stdout = [], outbox = [], list_objects = [], clock_reads = 0\<rparr>"

definition example_listing :: "string \<Rightarrow> string option \<Rightarrow> listing" where
  "example_listing u available =
     \<lparr>url = u, date_scraped = ''02/11/2026'', description = ''2 bedroom flat'', price = ''1400'',
      location = ''1 High Street'', nearest_stations = [], date_available = available,
      furnished = None, deposit = None\<rparr>"

text \<open>The example site, answering every request it answers with the status 500.\<close>

definition example_site_500 :: "string \<Rightarrow> error + response" where
  "example_site_500 u = map_sum id (\<lambda>r. r\<lparr>status_code := 500\<rparr>) (example_site u)"



text \<open>
  The example site with a second search page, for the location \<^verbatim>\<open>REGION^2\<close>: it lists
  \<^verbatim>\<open>u2\<close>, which the first search page lists too, and \<^verbatim>\<open>u3\<close>, which only it lists.
\<close>

definition example_site_two_regions :: "string \<Rightarrow> error + response" where
  "example_site_two_regions u =
     (if u = ''https://example.test/find.html?availableafternweeks=7&radius=1&locationIdentifier=REGION%5E2''
      then Inr \<lparr>status_code = 200, response_text = ''search page 2''\<rparr>
      else if u = ''u3'' then Inr \<lparr>status_code = 200, response_text = ''page of u3''\<rparr>
      else example_site u)"

definition example_env_two_regions :: env where
  "example_env_two_regions =
     example_env\<lparr>http_get := example_site_two_regions,
                 get_listing_urls :=
                   (\<lambda>dom. if dom = ''search page 2'' then [''u2'', ''u3'']
                           else get_listing_urls example_env dom)\<rparr>"

text \<open>The example world with another \<^verbatim>\<open>filters\<close> section in its configuration.\<close>

definition example_world_with_filters :: "(string \<times> string) list \<Rightarrow> world" where
  "example_world_with_filters opts = example_world\<lparr>config := [(''filters'', opts)]\<rparr>"

section \<open>Properties\<close>

text \<open>The defining equations that running the example data unfolds.\<close>

lemmas example_defs =
  example_env_def example_world_def example_config_def example_site_def example_clock_def
  example_listing_def listing_attributes_def example_world_with_filters_def

lemmas sheet_defs =
  add_listings_def does_cell_exist_with_value_def build_row_def vars_def cell_of_def
  insert_row_def py_print_def

lemmas scrape_defs =
  scrape_listings_def build_search_url_def config_items_def new_list_def list_append_def
  urlencode_def quote_plus_def always_safe_def hex_digit_def scrape_def py_print_def
  Listing_def scrape_details_def read_clock_def strftime_dmy_def pad2_def pad4_def
  str_nat.simps digit_char_def remove_duplicate_listings_def Let_def

subsection \<open>The counters of \<^verbatim>\<open>add_listings\<close>\<close>

lemma add_listings_loop_counts:
  "add_listings_loop e ls d wr w = (Inr (written, duplicates), w') \<Longrightarrow>
     written + duplicates = wr + d + length ls"
  by (induction ls arbitrary: d wr w) (auto simp: Let_def split: sum.splits if_splits)

lemma build_row_loop_KeyError:
  "build_row_loop details pm row = Inl err \<Longrightarrow>
     \<exists>a. err = KeyError a \<and> a \<in> set (map snd pm) \<and> a \<notin> set (map fst details)"
proof (induction pm arbitrary: row)
  case Nil
  then show ?case by simp
next
  case (Cons p pm)
  obtain title attribute where p: "p = (title, attribute)" by (cases p)
  show ?case
  proof (cases "map_of details attribute")
    case None
    with Cons.prems p have "err = KeyError attribute" by simp
    moreover from None have "attribute \<notin> set (map fst details)"
      by (simp add: map_of_eq_None_iff)
    ultimately show ?thesis using p by auto
  next
    case (Some v)
    with Cons.prems p have "build_row_loop details pm (row @ [v]) = Inl err" by simp
    from Cons.IH [OF this] show ?thesis by auto
  qed
qed

lemma vars_keys: "map fst (vars l) = listing_attributes"
  by (simp add: vars_def listing_attributes_def)

lemma build_row_KeyError:
  "build_row e l = Inl err \<Longrightarrow>
     \<exists>a. err = KeyError a \<and> a \<in> set (map snd (propertyMappings e)) \<and> a \<notin> set listing_attributes"
  unfolding build_row_def using build_row_loop_KeyError [of "vars l"] by (simp add: vars_keys)

lemma add_listings_loop_error:
  "add_listings_loop e ls d wr w = (Inl err, w') \<Longrightarrow>
     \<exists>a. err = KeyError a \<and> a \<in> set (map snd (propertyMappings e)) \<and> a \<notin> set listing_attributes"
proof (induction ls arbitrary: d wr w)
  case Nil
  then show ?case by simp
next
  case (Cons l ls)
  show ?case
  proof (cases "does_cell_exist_with_value e w (url l)")
    case True
    with Cons.prems have "add_listings_loop e ls (d + 1) wr w = (Inl err, w')" by simp
    from Cons.IH [OF this] show ?thesis .
  next
    case False
    show ?thesis
    proof (cases "build_row e l")
      case (Inl err')
      with False Cons.prems have "err' = err" by simp
      with Inl build_row_KeyError show ?thesis by blast
    next
      case (Inr row)
      with False Cons.prems
      have "add_listings_loop e ls d (wr + 1) (w\<lparr>worksheet := insert_row row 2 (worksheet w)\<rparr>)
              = (Inl err, w')" by simp
      from Cons.IH [OF this] show ?thesis .
    qed
  qed
qed

text \<open>
  C10. Whenever \<^verbatim>\<open>add_listings\<close> returns, the two counters it returns add up to the number
  of listings it was given: each listing adds one to exactly one of them. The call
  returns unless \<^verbatim>\<open>build_row\<close> raises, which it does only when \<^verbatim>\<open>propertyMappings\<close> names an
  attribute that listings do not have.
\<close>

theorem add_listings_counts_every_listing:
  "(\<forall>written duplicates w'.
      add_listings e listings w = (Inr (written, duplicates), w') \<longrightarrow>
      written + duplicates = length listings)
   \<and> (\<forall>err w'.
      add_listings e listings w = (Inl err, w') \<longrightarrow>
      (\<exists>a. err = KeyError a \<and> a \<in> set (map snd (propertyMappings e))
           \<and> a \<notin> set listing_attributes))"
proof (intro conjI allI impI)
  fix written duplicates w'
  assume "add_listings e listings w = (Inr (written, duplicates), w')"
  then show "written + duplicates = length listings"
    unfolding add_listings_def by (auto dest: add_listings_loop_counts)
next
  fix err w'
  assume "add_listings e listings w = (Inl err, w')"
  then show "\<exists>a. err = KeyError a \<and> a \<in> set (map snd (propertyMappings e))
                \<and> a \<notin> set listing_attributes"
    unfolding add_listings_def by (rule add_listings_loop_error)
qed

theorem add_listings_counts_every_listing_witness:
  "fst (add_listings example_env
          [example_listing ''u1'' None, example_listing ''u2'' None, example_listing ''u3'' None]
          example_world) = Inr (2, 1)
   \<and> (2::nat) + 1 = length [example_listing ''u1'' None, example_listing ''u2'' None,
                            example_listing ''u3'' None]
   \<and> fst (add_listings (example_env\<lparr>propertyMappings := [(''Beds'', ''bedrooms'')]\<rparr>)
            [example_listing ''u1'' None] example_world) = Inl (KeyError ''bedrooms'')
   \<and> ''bedrooms'' \<notin> set listing_attributes"
proof -
  let ?ls = "[example_listing ''u1'' None, example_listing ''u2'' None, example_listing ''u3'' None]"
  let ?e = "example_env\<lparr>propertyMappings := [(''Beds'', ''bedrooms'')]\<rparr>"
  have run: "fst (add_listings example_env ?ls example_world) = Inr (2, 1)"
    by (simp add: sheet_defs example_defs)
  then have "add_listings example_env ?ls example_world
               = (Inr (2, 1), snd (add_listings example_env ?ls example_world))"
    by (simp add: prod_eq_iff)
  with add_listings_counts_every_listing [of example_env ?ls example_world]
  have sum: "(2::nat) + 1 = length ?ls" by blast
  have bad: "fst (add_listings ?e [example_listing ''u1'' None] example_world)
               = Inl (KeyError ''bedrooms'')"
    by (simp add: sheet_defs example_defs)
  then have "add_listings ?e [example_listing ''u1'' None] example_world
               = (Inl (KeyError ''bedrooms''),
                  snd (add_listings ?e [example_listing ''u1'' None] example_world))"
    by (simp add: prod_eq_iff)
  with add_listings_counts_every_listing [of ?e "[example_listing ''u1'' None]" example_world]
  have "\<exists>a. KeyError ''bedrooms'' = KeyError a \<and> a \<notin> set listing_attributes" by blast
  then have "''bedrooms'' \<notin> set listing_attributes" by simp
  with run sum bad show ?thesis by simp
qed

subsection \<open>Removing the duplicates of a run\<close>

lemma filter_dedup_by_url:
  "filter (\<lambda>l. url l = u) (dedup_by_url seen xs) =
     (if u \<in> set seen then [] else take 1 (filter (\<lambda>l. url l = u) xs))"
proof (induction xs arbitrary: seen)
  case Nil
  then show ?case by simp
next
  case (Cons x xs)
  show ?case
  proof (cases "url x \<in> set seen")
    case True
    with Cons.IH [of seen] show ?thesis by auto
  next
    case False
    with Cons.IH [of "url x # seen"] show ?thesis by auto
  qed
qed

lemma subseq_dedup_by_url: "subseq (dedup_by_url seen xs) xs"
  by (induction xs arbitrary: seen) auto

lemma urls_dedup_by_url: "l \<in> set (dedup_by_url seen xs) \<Longrightarrow> url l \<notin> set seen"
proof (induction xs arbitrary: seen)
  case Nil
  then show ?case by simp
next
  case (Cons x xs)
  show ?case
  proof (cases "url x \<in> set seen")
    case True
    with Cons show ?thesis by simp
  next
    case False
    with Cons.prems have "l = x \<or> l \<in> set (dedup_by_url (url x # seen) xs)" by simp
    then show ?thesis
    proof
      assume "l = x"
      with False show ?thesis by simp
    next
      assume "l \<in> set (dedup_by_url (url x # seen) xs)"
      from Cons.IH [OF this] show ?thesis by simp
    qed
  qed
qed

lemma distinct_dedup_by_url: "distinct (map url (dedup_by_url seen xs))"
proof (induction xs arbitrary: seen)
  case Nil
  then show ?case by simp
next
  case (Cons x xs)
  show ?case
  proof (cases "url x \<in> set seen")
    case True
    with Cons.IH show ?thesis by simp
  next
    case False
    have "url x \<notin> url ` set (dedup_by_url (url x # seen) xs)"
      using urls_dedup_by_url [of _ "url x # seen" xs] by fastforce
    with False Cons.IH show ?thesis by simp
  qed
qed

text \<open>
  What the loop of \<^verbatim>\<open>scrape_listings\<close> has done when it returns: for every location
  identifier, in the order given, it has built the search URL and scraped it, each step
  in the world the step before left, and the sequence it hands on is what it started
  with followed by what each location gave, in that order.
\<close>

lemma scrape_locations_runs:
  "scrape_locations e ids acc w = (Inr aggregated, w') \<Longrightarrow>
     \<exists>founds worlds.
        length founds = length ids
      \<and> length worlds = Suc (length ids)
      \<and> worlds ! 0 = w
      \<and> worlds ! length ids = w'
      \<and> (\<forall>i < length ids. \<exists>search_url w1.
            build_search_url e (ids ! i) (worlds ! i) = (Inr search_url, w1)
          \<and> scrape e search_url w1 = (Inr (founds ! i), worlds ! Suc i))
      \<and> aggregated = acc @ concat founds"
proof (induction ids arbitrary: acc w)
  case Nil
  then have a: "aggregated = acc" and b: "w' = w" by simp_all
  show ?case
  proof (rule exI [where x = "[]"], rule exI [where x = "[w]"])
    show "length ([] :: listing list list) = length ([] :: string list)
      \<and> length [w] = Suc (length ([] :: string list))
      \<and> [w] ! 0 = w
      \<and> [w] ! length ([] :: string list) = w'
      \<and> (\<forall>i < length ([] :: string list). \<exists>search_url w1.
            build_search_url e ([] ! i) ([w] ! i) = (Inr search_url, w1)
          \<and> scrape e search_url w1 = (Inr ([] ! i), [w] ! Suc i))
      \<and> aggregated = acc @ concat []"
      using a b by simp
  qed
next
  case (Cons loc rest)
  from Cons.prems obtain search_url w1 where
    b: "build_search_url e loc w = (Inr search_url, w1)"
    by (cases "build_search_url e loc w") (auto split: sum.splits)
  from Cons.prems b obtain found w2 where
    s: "scrape e search_url w1 = (Inr found, w2)"
    by (cases "scrape e search_url w1") (auto split: sum.splits)
  from Cons.prems b s have "scrape_locations e rest (acc @ found) w2 = (Inr aggregated, w')"
    by simp
  from Cons.IH [OF this] obtain founds worlds where
    l1: "length founds = length rest" and l2: "length worlds = Suc (length rest)"
    and w0: "worlds ! 0 = w2" and wn: "worlds ! length rest = w'"
    and steps: "\<forall>i < length rest. \<exists>search_url w1.
            build_search_url e (rest ! i) (worlds ! i) = (Inr search_url, w1)
          \<and> scrape e search_url w1 = (Inr (founds ! i), worlds ! Suc i)"
    and agg: "aggregated = (acc @ found) @ concat founds"
    by blast
  have "\<forall>i < length (loc # rest). \<exists>search_url w1.
            build_search_url e ((loc # rest) ! i) ((w # worlds) ! i) = (Inr search_url, w1)
          \<and> scrape e search_url w1 = (Inr ((found # founds) ! i), (w # worlds) ! Suc i)"
  proof (intro allI impI)
    fix i assume i: "i < length (loc # rest)"
    show "\<exists>search_url w1.
            build_search_url e ((loc # rest) ! i) ((w # worlds) ! i) = (Inr search_url, w1)
          \<and> scrape e search_url w1 = (Inr ((found # founds) ! i), (w # worlds) ! Suc i)"
    proof (cases i)
      case 0
      with b s w0 show ?thesis by simp
    next
      case (Suc j)
      with i have "j < length rest" by simp
      with steps Suc show ?thesis by simp
    qed
  qed
  moreover have "length (found # founds) = length (loc # rest)" using l1 by simp
  moreover have "length (w # worlds) = Suc (length (loc # rest))" using l2 by simp
  moreover have "(w # worlds) ! 0 = w" by simp
  moreover have "(w # worlds) ! length (loc # rest) = w'" using wn by simp
  moreover have "aggregated = acc @ concat (found # founds)" using agg by simp
  ultimately show ?case by blast
qed

text \<open>
  C7. When \<^verbatim>\<open>scrape_listings\<close> returns, every location has been processed: for each
  location identifier, in order, \<^verbatim>\<open>build_search_url\<close> and \<^verbatim>\<open>scrape\<close> have run and returned,
  each in the world the location before left. The aggregated sequence is the listings
  found at the first location, then those found at the second, and so on, and the result
  is that whole sequence with the duplicates removed by URL, once, after the loop: no two
  listings of the result share a URL, the result is a subsequence of the aggregated
  sequence (insertion order is kept), and for every URL the listings of the result with
  that URL are exactly the first listing of the aggregated sequence with it, so of \<open>k\<close>
  listings sharing a URL, at one location or at several, exactly one survives, the first.
\<close>

theorem scrape_listings_removes_duplicates:
  "scrape_listings e location_identifiers w = (Inr result, w') \<Longrightarrow>
     \<exists>founds worlds.
        length founds = length location_identifiers
      \<and> length worlds = Suc (length location_identifiers)
      \<and> worlds ! 0 = w
      \<and> worlds ! length location_identifiers = w'
      \<and> (\<forall>i < length location_identifiers. \<exists>search_url w1.
            build_search_url e (location_identifiers ! i) (worlds ! i) = (Inr search_url, w1)
          \<and> scrape e search_url w1 = (Inr (founds ! i), worlds ! Suc i))
      \<and> scrape_locations e location_identifiers [] w = (Inr (concat founds), w')
      \<and> result = remove_duplicate_listings (concat founds)
      \<and> distinct (map url result)
      \<and> subseq result (concat founds)
      \<and> (\<forall>u. filter (\<lambda>l. url l = u) result = take 1 (filter (\<lambda>l. url l = u) (concat founds)))"
proof -
  assume run: "scrape_listings e location_identifiers w = (Inr result, w')"
  obtain r w1 where loop: "scrape_locations e location_identifiers [] w = (r, w1)"
    by (cases "scrape_locations e location_identifiers [] w")
  show ?thesis
  proof (cases r)
    case (Inl err)
    with run loop show ?thesis by (simp add: scrape_listings_def)
  next
    case (Inr aggregated)
    with run loop have res: "result = remove_duplicate_listings aggregated" and w: "w1 = w'"
      by (simp_all add: scrape_listings_def)
    from loop Inr w have "scrape_locations e location_identifiers [] w = (Inr aggregated, w')"
      by simp
    note whole = this
    from scrape_locations_runs [OF this] obtain founds worlds where
      runs: "length founds = length location_identifiers"
        "length worlds = Suc (length location_identifiers)"
        "worlds ! 0 = w" "worlds ! length location_identifiers = w'"
        "\<forall>i < length location_identifiers. \<exists>search_url w1.
            build_search_url e (location_identifiers ! i) (worlds ! i) = (Inr search_url, w1)
          \<and> scrape e search_url w1 = (Inr (founds ! i), worlds ! Suc i)"
      and agg: "aggregated = concat founds"
      by auto
    have "distinct (map url result)"
      unfolding res remove_duplicate_listings_def by (rule distinct_dedup_by_url)
    moreover have "subseq result (concat founds)"
      unfolding res agg remove_duplicate_listings_def by (rule subseq_dedup_by_url)
    moreover have "\<forall>u. filter (\<lambda>l. url l = u) result
                        = take 1 (filter (\<lambda>l. url l = u) (concat founds))"
      unfolding res agg remove_duplicate_listings_def by (simp add: filter_dedup_by_url)
    moreover have "result = remove_duplicate_listings (concat founds)" using res agg by simp
    moreover have "scrape_locations e location_identifiers [] w = (Inr (concat founds), w')"
      using whole agg by simp
    ultimately show ?thesis using runs by blast
  qed
qed

theorem scrape_listings_removes_duplicates_witness:
  "fst (scrape_listings example_env_two_regions [''REGION^1'', ''REGION^2''] example_world)
     = Inr [example_listing ''u1'' (Some ''22/12/2026''), example_listing ''u2'' (Some ''Now''),
            example_listing ''u3'' (Some ''Now'')]
   \<and> fst (scrape_locations example_env_two_regions [''REGION^1'', ''REGION^2''] [] example_world)
     = Inr [example_listing ''u1'' (Some ''22/12/2026''), example_listing ''u2'' (Some ''Now''),
            example_listing ''u1'' (Some ''22/12/2026''), example_listing ''u2'' (Some ''Now''),
            example_listing ''u3'' (Some ''Now'')]
   \<and> fst (scrape_locations example_env_two_regions [''REGION^1''] [] example_world)
     = Inr [example_listing ''u1'' (Some ''22/12/2026''), example_listing ''u2'' (Some ''Now''),
            example_listing ''u1'' (Some ''22/12/2026'')]
   \<and> filter (\<lambda>l. url l = ''u2'')
        [example_listing ''u1'' (Some ''22/12/2026''), example_listing ''u2'' (Some ''Now''),
         example_listing ''u3'' (Some ''Now'')]
     = [example_listing ''u2'' (Some ''Now'')]"
proof -
  let ?A = "example_listing ''u1'' (Some ''22/12/2026'')"
  let ?B = "example_listing ''u2'' (Some ''Now'')"
  let ?C = "example_listing ''u3'' (Some ''Now'')"
  let ?ids = "[''REGION^1'', ''REGION^2'']"
  let ?run = "scrape_listings example_env_two_regions ?ids example_world"
  have agg: "fst (scrape_locations example_env_two_regions ?ids [] example_world)
               = Inr [?A, ?B, ?A, ?B, ?C]"
    by (simp add: scrape_defs example_defs example_env_two_regions_def
                  example_site_two_regions_def)
  have one: "fst (scrape_locations example_env_two_regions [''REGION^1''] [] example_world)
               = Inr [?A, ?B, ?A]"
    by (simp add: scrape_defs example_defs example_env_two_regions_def
                  example_site_two_regions_def)
  obtain r w1 where loop: "scrape_locations example_env_two_regions ?ids [] example_world = (r, w1)"
    by (cases "scrape_locations example_env_two_regions ?ids [] example_world")
  with agg have r: "r = Inr [?A, ?B, ?A, ?B, ?C]" by simp
  have "?run = (Inr (remove_duplicate_listings [?A, ?B, ?A, ?B, ?C]), w1)"
    by (simp only: scrape_listings_def loop r prod.case sum.case)
  then have run: "fst ?run = Inr [?A, ?B, ?C]"
    by (simp add: remove_duplicate_listings_def example_listing_def)
  from run have "?run = (Inr [?A, ?B, ?C], snd ?run)" by (simp add: prod_eq_iff)
  from scrape_listings_removes_duplicates [OF this] obtain founds where
    "scrape_locations example_env_two_regions ?ids [] example_world = (Inr (concat founds), snd ?run)"
    and "\<forall>u. filter (\<lambda>l. url l = u) [?A, ?B, ?C]
              = take 1 (filter (\<lambda>l. url l = u) (concat founds))"
    by blast
  with agg have "filter (\<lambda>l. url l = ''u2'') [?A, ?B, ?C]
                   = take 1 (filter (\<lambda>l. url l = ''u2'') [?A, ?B, ?A, ?B, ?C])"
    by auto
  then have "filter (\<lambda>l. url l = ''u2'') [?A, ?B, ?C] = [?B]"
    by (simp add: example_listing_def)
  with run agg one show ?thesis by blast
qed

subsection \<open>Adding the same listings twice\<close>

lemma build_row_loop_result:
  "build_row_loop details pm row = Inr row' \<Longrightarrow>
     row' = row @ map (\<lambda>p. the (map_of details (snd p))) pm"
proof (induction pm arbitrary: row)
  case Nil
  then show ?case by simp
next
  case (Cons p pm)
  obtain title attribute where p: "p = (title, attribute)" by (cases p)
  from Cons.prems p obtain v where v: "map_of details attribute = Some v"
    and rest: "build_row_loop details pm (row @ [v]) = Inr row'"
    by (auto split: option.splits)
  from Cons.IH [OF rest] p v show ?case by simp
qed

lemma url_column_Some:
  "url_column pm = Some c \<Longrightarrow> c < length pm \<and> snd (pm ! c) = ''url''"
proof (induction pm arbitrary: c)
  case Nil
  then show ?case by simp
next
  case (Cons p pm)
  obtain title attribute where p: "p = (title, attribute)" by (cases p)
  show ?case
  proof (cases "attribute = ''url''")
    case True
    with Cons.prems p show ?thesis by simp
  next
    case False
    with Cons.prems p obtain c' where "url_column pm = Some c'" "c = Suc c'" by auto
    with Cons.IH [of c'] show ?thesis by simp
  qed
qed

lemma url_column_exists:
  "''url'' \<in> set (map snd pm) \<Longrightarrow> \<exists>c. url_column pm = Some c"
proof (induction pm)
  case Nil
  then show ?case by simp
next
  case (Cons p pm)
  obtain title attribute where p: "p = (title, attribute)" by (cases p)
  show ?case
  proof (cases "attribute = ''url''")
    case True
    with p show ?thesis by simp
  next
    case False
    with Cons.prems p have "''url'' \<in> set (map snd pm)" by simp
    from Cons.IH [OF this] p False show ?thesis by auto
  qed
qed

lemma build_row_url:
  assumes "build_row e l = Inr row" and "url_column (propertyMappings e) = Some c"
  shows "c < length row \<and> row ! c = CStr (url l)"
proof -
  from url_column_Some [OF assms(2)]
  have c: "c < length (propertyMappings e)" and a: "snd (propertyMappings e ! c) = ''url''" by simp_all
  from assms(1) have "build_row_loop (vars l) (propertyMappings e) [] = Inr row"
    by (simp add: build_row_def)
  from build_row_loop_result [OF this]
  have row: "row = map (\<lambda>p. the (map_of (vars l) (snd p))) (propertyMappings e)" by simp
  have "map_of (vars l) ''url'' = Some (CStr (url l))" by (simp add: vars_def)
  with row c a show ?thesis by simp
qed

lemma set_insert_row:
  "set (insert_row row 2 rows) = insert row (set rows) \<union> (if rows = [] then {[]} else {})"
proof (cases rows)
  case Nil
  then show ?thesis by (simp add: insert_row_def numeral_2_eq_2)
next
  case (Cons r rs)
  then show ?thesis by (auto simp: insert_row_def numeral_2_eq_2)
qed

lemma exists_after_insert:
  assumes "url_column (propertyMappings e) = Some c" and "c < length row"
  shows "does_cell_exist_with_value e (w\<lparr>worksheet := insert_row row 2 (worksheet w)\<rparr>) v
           \<longleftrightarrow> does_cell_exist_with_value e w v \<or> row ! c = CStr v"
  using assms by (auto simp: does_cell_exist_with_value_def list_ex_iff set_insert_row split: if_splits)

lemma exists_py_print [simp]:
  "does_cell_exist_with_value e (py_print s w) v = does_cell_exist_with_value e w v"
  by (simp add: does_cell_exist_with_value_def py_print_def split: option.splits)

lemma build_row_returns:
  assumes "set (map snd (propertyMappings e)) \<subseteq> set listing_attributes"
  shows "\<exists>row. build_row e l = Inr row"
proof (cases "build_row e l")
  case (Inl err)
  from build_row_KeyError [OF this] assms show ?thesis by auto
next
  case (Inr row)
  then show ?thesis by simp
qed

lemma add_listings_loop_new:
  assumes attrs: "set (map snd (propertyMappings e)) \<subseteq> set listing_attributes"
    and col: "url_column (propertyMappings e) = Some c"
  shows "distinct (map url ls) \<Longrightarrow> \<forall>l \<in> set ls. \<not> does_cell_exist_with_value e w (url l) \<Longrightarrow>
     \<exists>w'. add_listings_loop e ls d wr w = (Inr (wr + length ls, d), w')
        \<and> (\<forall>v. does_cell_exist_with_value e w' v
                 \<longleftrightarrow> does_cell_exist_with_value e w v \<or> v \<in> url ` set ls)"
proof (induction ls arbitrary: w wr)
  case Nil
  then show ?case by simp
next
  case (Cons l ls)
  from build_row_returns [OF attrs] obtain row where row: "build_row e l = Inr row" by blast
  from build_row_url [OF row col] have c: "c < length row" and u: "row ! c = CStr (url l)" by simp_all
  let ?w = "w\<lparr>worksheet := insert_row row 2 (worksheet w)\<rparr>"
  have ex: "\<And>v. does_cell_exist_with_value e ?w v \<longleftrightarrow> does_cell_exist_with_value e w v \<or> v = url l"
    using exists_after_insert [OF col c, of w] u by auto
  from Cons.prems have new: "\<not> does_cell_exist_with_value e w (url l)" by simp
  from Cons.prems have "distinct (map url ls)" by simp
  moreover have "\<forall>x \<in> set ls. \<not> does_cell_exist_with_value e ?w (url x)"
  proof
    fix x assume x: "x \<in> set ls"
    from Cons.prems(1) have "url l \<notin> url ` set ls" by simp
    with x have "url x \<noteq> url l" by (metis imageI)
    moreover from x Cons.prems have "\<not> does_cell_exist_with_value e w (url x)" by simp
    ultimately show "\<not> does_cell_exist_with_value e ?w (url x)" using ex by simp
  qed
  ultimately obtain w' where
    loop: "add_listings_loop e ls d (wr + 1) ?w = (Inr (wr + 1 + length ls, d), w')"
    and ex': "\<forall>v. does_cell_exist_with_value e w' v
                 \<longleftrightarrow> does_cell_exist_with_value e ?w v \<or> v \<in> url ` set ls"
    using Cons.IH [of ?w "wr + 1"] by blast
  from new row loop have "add_listings_loop e (l # ls) d wr w = (Inr (wr + length (l # ls), d), w')"
    by simp
  moreover from ex ex' have "\<forall>v. does_cell_exist_with_value e w' v
                 \<longleftrightarrow> does_cell_exist_with_value e w v \<or> v \<in> url ` set (l # ls)"
    by auto
  ultimately show ?case by blast
qed

lemma add_listings_loop_known:
  "\<forall>l \<in> set ls. does_cell_exist_with_value e w (url l) \<Longrightarrow>
     add_listings_loop e ls d wr w = (Inr (wr, d + length ls), w)"
  by (induction ls arbitrary: d) simp_all

text \<open>
  C1. For \<open>N\<close> listings with pairwise distinct URLs, none of them in the worksheet,
  \<^verbatim>\<open>add_listings\<close> returns \<open>(N, 0)\<close>, and called again with the same listings on the
  worksheet it left it returns \<open>(0, N)\<close> and inserts nothing. The rows must have a URL
  column for the existence check to read (\<^verbatim>\<open>propertyMappings\<close> maps a column to \<^verbatim>\<open>url\<close>), and
  \<^verbatim>\<open>propertyMappings\<close> must name attributes that listings have.
\<close>

theorem add_listings_idempotent:
  assumes "set (map snd (propertyMappings e)) \<subseteq> set listing_attributes"
    and "''url'' \<in> set (map snd (propertyMappings e))"
    and "distinct (map url listings)"
    and "\<forall>l \<in> set listings. \<not> does_cell_exist_with_value e w (url l)"
  shows "\<exists>w1 w2. add_listings e listings w = (Inr (length listings, 0), w1)
              \<and> add_listings e listings w1 = (Inr (0, length listings), w2)
              \<and> worksheet w2 = worksheet w1
              \<and> (\<forall>l \<in> set listings. does_cell_exist_with_value e w1 (url l))"
proof -
  from url_column_exists [OF assms(2)] obtain c where col: "url_column (propertyMappings e) = Some c"
    by blast
  let ?w = "py_print ''Writing listings to sheet...'' w"
  from assms(4) have "\<forall>l \<in> set listings. \<not> does_cell_exist_with_value e ?w (url l)" by simp
  from add_listings_loop_new [OF assms(1) col assms(3) this, of 0 0]
  obtain w1 where first: "add_listings_loop e listings 0 0 ?w = (Inr (length listings, 0), w1)"
    and ex: "\<forall>v. does_cell_exist_with_value e w1 v
                 \<longleftrightarrow> does_cell_exist_with_value e ?w v \<or> v \<in> url ` set listings"
    by auto
  let ?w1 = "py_print ''Writing listings to sheet...'' w1"
  from ex have known: "\<forall>l \<in> set listings. does_cell_exist_with_value e w1 (url l)" by simp
  then have "\<forall>l \<in> set listings. does_cell_exist_with_value e ?w1 (url l)" by simp
  from add_listings_loop_known [OF this, of 0 0]
  have second: "add_listings_loop e listings 0 0 ?w1 = (Inr (0, length listings), ?w1)" by simp
  have "worksheet ?w1 = worksheet w1" by (simp add: py_print_def)
  with first second known show ?thesis unfolding add_listings_def by blast
qed


theorem add_listings_idempotent_witness:
  "set (map snd (propertyMappings example_env)) \<subseteq> set listing_attributes
   \<and> ''url'' \<in> set (map snd (propertyMappings example_env))
   \<and> distinct (map url [example_listing ''u1'' None, example_listing ''u3'' None])
   \<and> \<not> does_cell_exist_with_value example_env example_world ''u1''
   \<and> \<not> does_cell_exist_with_value example_env example_world ''u3''
   \<and> fst (add_listings example_env [example_listing ''u1'' None, example_listing ''u3'' None]
            example_world) = Inr (2, 0)
   \<and> fst (add_listings example_env [example_listing ''u1'' None, example_listing ''u3'' None]
            (snd (add_listings example_env [example_listing ''u1'' None, example_listing ''u3'' None]
                    example_world))) = Inr (0, 2)"
proof -
  let ?ls = "[example_listing ''u1'' None, example_listing ''u3'' None]"
  have h1: "set (map snd (propertyMappings example_env)) \<subseteq> set listing_attributes"
    by (simp add: example_env_def listing_attributes_def)
  have h2: "''url'' \<in> set (map snd (propertyMappings example_env))"
    by (simp add: example_env_def)
  have h3: "distinct (map url ?ls)"
    by (simp add: example_listing_def)
  have n1: "\<not> does_cell_exist_with_value example_env example_world ''u1''"
    and n3: "\<not> does_cell_exist_with_value example_env example_world ''u3''"
    by (simp_all add: does_cell_exist_with_value_def example_env_def example_world_def)
  then have h4: "\<forall>l \<in> set ?ls. \<not> does_cell_exist_with_value example_env example_world (url l)"
    by (simp add: example_listing_def)
  from add_listings_idempotent [OF h1 h2 h3 h4]
  obtain w1 w2 where "add_listings example_env ?ls example_world = (Inr (length ?ls, 0), w1)"
    and "add_listings example_env ?ls w1 = (Inr (0, length ?ls), w2)" by blast
  then have "fst (add_listings example_env ?ls example_world) = Inr (2, 0)"
    and "fst (add_listings example_env ?ls (snd (add_listings example_env ?ls example_world)))
           = Inr (0, 2)" by simp_all
  with h1 h2 h3 n1 n3 show ?thesis by blast
qed

subsection \<open>Building the search URLs\<close>

lemma build_search_url_result:
  assumes "config_items (config w) ''filters'' = Inr filters"
  shows "build_search_url e i w =
           (Inr (base_search_url e @ urlencode (filters @ [(''locationIdentifier'', i)])),
            w\<lparr>list_objects := list_objects w @ [filters @ [(''locationIdentifier'', i)]]\<rparr>)"
  using assms by (simp add: build_search_url_def new_list_def list_append_def Let_def)

text \<open>
  C8. With a \<^verbatim>\<open>filters\<close> section in the configuration, \<^verbatim>\<open>build_search_url\<close> returns the URL
  made of the shared filters followed by the location's identifier. The merge is done in
  a list object of its own: after the call the world differs from the one before only by
  that new object, so the configuration still holds the same filters, and a second call
  for another location reads the same filters and leaves the configuration and every
  list object that existed before the first call as they were.
\<close>

theorem build_search_url_keeps_filters:
  assumes "config_items (config w) ''filters'' = Inr filters"
  shows "\<exists>w1 w2.
           build_search_url e i1 w
             = (Inr (base_search_url e @ urlencode (filters @ [(''locationIdentifier'', i1)])), w1)
         \<and> w1 = w\<lparr>list_objects := list_objects w @ [filters @ [(''locationIdentifier'', i1)]]\<rparr>
         \<and> config_items (config w1) ''filters'' = Inr filters
         \<and> build_search_url e i2 w1
             = (Inr (base_search_url e @ urlencode (filters @ [(''locationIdentifier'', i2)])), w2)
         \<and> config w2 = config w
         \<and> take (length (list_objects w)) (list_objects w2) = list_objects w"
proof -
  let ?w1 = "w\<lparr>list_objects := list_objects w @ [filters @ [(''locationIdentifier'', i1)]]\<rparr>"
  let ?w2 = "?w1\<lparr>list_objects := list_objects ?w1 @ [filters @ [(''locationIdentifier'', i2)]]\<rparr>"
  have first: "build_search_url e i1 w
      = (Inr (base_search_url e @ urlencode (filters @ [(''locationIdentifier'', i1)])), ?w1)"
    by (rule build_search_url_result [OF assms])
  have same: "config_items (config ?w1) ''filters'' = Inr filters" using assms by simp
  have second: "build_search_url e i2 ?w1
      = (Inr (base_search_url e @ urlencode (filters @ [(''locationIdentifier'', i2)])), ?w2)"
    by (rule build_search_url_result [OF same])
  have "config ?w2 = config w" by simp
  moreover have "take (length (list_objects w)) (list_objects ?w2) = list_objects w" by simp
  ultimately show ?thesis using first same second by blast
qed

theorem build_search_url_keeps_filters_witness:
  "config_items (config example_world) ''filters''
     = Inr [(''availableafternweeks'', ''7''), (''radius'', ''1'')]
   \<and> fst (build_search_url example_env ''REGION^1'' example_world)
     = Inr ''https://example.test/find.html?availableafternweeks=7&radius=1&locationIdentifier=REGION%5E1''
   \<and> config_items (config (snd (build_search_url example_env ''REGION^1'' example_world))) ''filters''
     = Inr [(''availableafternweeks'', ''7''), (''radius'', ''1'')]
   \<and> fst (build_search_url example_env ''REGION^2''
            (snd (build_search_url example_env ''REGION^1'' example_world)))
     = Inr ''https://example.test/find.html?availableafternweeks=7&radius=1&locationIdentifier=REGION%5E2''"
proof -
  let ?filters = "[(''availableafternweeks'', ''7''), (''radius'', ''1'')]"
  have h: "config_items (config example_world) ''filters'' = Inr ?filters"
    by (simp add: config_items_def example_defs)
  from build_search_url_keeps_filters [OF h, of example_env "''REGION^1''" "''REGION^2''"]
  obtain w1 w2 where
    "build_search_url example_env ''REGION^1'' example_world
       = (Inr (base_search_url example_env
               @ urlencode (?filters @ [(''locationIdentifier'', ''REGION^1'')])), w1)"
    and "config_items (config w1) ''filters'' = Inr ?filters"
    and "build_search_url example_env ''REGION^2'' w1
       = (Inr (base_search_url example_env
               @ urlencode (?filters @ [(''locationIdentifier'', ''REGION^2'')])), w2)"
    by blast
  then have "fst (build_search_url example_env ''REGION^1'' example_world)
       = Inr (base_search_url example_env
               @ urlencode (?filters @ [(''locationIdentifier'', ''REGION^1'')]))"
    and "config_items (config (snd (build_search_url example_env ''REGION^1'' example_world)))
           ''filters'' = Inr ?filters"
    and "fst (build_search_url example_env ''REGION^2''
            (snd (build_search_url example_env ''REGION^1'' example_world)))
       = Inr (base_search_url example_env
               @ urlencode (?filters @ [(''locationIdentifier'', ''REGION^2'')]))"
    by simp_all
  moreover have "base_search_url example_env
               @ urlencode (?filters @ [(''locationIdentifier'', ''REGION^1'')])
     = ''https://example.test/find.html?availableafternweeks=7&radius=1&locationIdentifier=REGION%5E1''"
    by (simp add: example_env_def urlencode_def quote_plus_def always_safe_def hex_digit_def)
  moreover have "base_search_url example_env
               @ urlencode (?filters @ [(''locationIdentifier'', ''REGION^2'')])
     = ''https://example.test/find.html?availableafternweeks=7&radius=1&locationIdentifier=REGION%5E2''"
    by (simp add: example_env_def urlencode_def quote_plus_def always_safe_def hex_digit_def)
  ultimately show ?thesis using h by simp
qed

subsection \<open>The message of a run and its dispatch\<close>

lemma split_lines_nonempty: "split_lines s \<noteq> []"
  by (induction s) (auto split: list.splits)

lemma sublist_trans: "sublist xs ys \<Longrightarrow> sublist ys zs \<Longrightarrow> sublist xs zs"
  by (rule sublist_order.order.trans)

lemma join_split_lines: "join [newline] (split_lines s) = s"
proof (induction s)
  case Nil
  then show ?case by simp
next
  case (Cons c cs)
  obtain l ls where ls: "split_lines cs = l # ls"
    using split_lines_nonempty [of cs] by (cases "split_lines cs") auto
  show ?case
  proof (cases "c = newline")
    case True
    with Cons ls show ?thesis by simp
  next
    case False
    with Cons ls show ?thesis by (cases ls) auto
  qed
qed

lemma prefix_first_line:
  "prefix p s \<Longrightarrow> newline \<notin> set p \<Longrightarrow> prefix p (hd (split_lines s))"
proof (induction s arbitrary: p)
  case Nil
  then show ?case by simp
next
  case (Cons c cs)
  show ?case
  proof (cases p)
    case Nil
    then show ?thesis by simp
  next
    case (Cons a p')
    with Cons.prems have a: "a = c" and p': "prefix p' cs" and nl: "newline \<notin> set p'" and c: "c \<noteq> newline"
      by auto
    from Cons.IH [OF p' nl] have "prefix p' (hd (split_lines cs))" .
    with a c Cons show ?thesis
      by (cases "split_lines cs") (auto simp: split_lines_nonempty)
  qed
qed

lemma sublist_in_line:
  "sublist p s \<Longrightarrow> newline \<notin> set p \<Longrightarrow> \<exists>l \<in> set (split_lines s). sublist p l"
proof (induction s)
  case Nil
  then show ?case by simp
next
  case (Cons c cs)
  from Cons.prems(1) have "prefix p (c # cs) \<or> sublist p cs" by (simp add: sublist_Cons_right)
  then show ?case
  proof
    assume "prefix p (c # cs)"
    from prefix_first_line [OF this Cons.prems(2)]
    have "sublist p (hd (split_lines (c # cs)))" by (rule prefix_imp_sublist)
    moreover have "hd (split_lines (c # cs)) \<in> set (split_lines (c # cs))"
      using split_lines_nonempty [of "c # cs"] by (metis hd_in_set)
    ultimately show ?thesis by blast
  next
    assume "sublist p cs"
    from Cons.IH [OF this Cons.prems(2)] obtain l where l: "l \<in> set (split_lines cs)" "sublist p l"
      by blast
    obtain l0 ls where ls: "split_lines cs = l0 # ls"
      using split_lines_nonempty [of cs] by (cases "split_lines cs") auto
    show ?thesis
    proof (cases "c = newline")
      case True
      with l show ?thesis by auto
    next
      case False
      from l ls have "l = l0 \<or> l \<in> set ls" by simp
      then show ?thesis
      proof
        assume "l = l0"
        with l(2) have "sublist p (c # l0)" by (simp add: sublist_Cons_right)
        with False ls show ?thesis by simp
      next
        assume "l \<in> set ls"
        with False ls l(2) show ?thesis by auto
      qed
    qed
  qed
qed

lemma sublist_join: "l \<in> set ls \<Longrightarrow> sublist l (join sep ls)"
proof (induction sep ls rule: join.induct)
  case (1 sep)
  then show ?case by simp
next
  case (2 sep l')
  then show ?case by simp
next
  case (3 sep l' m ls)
  from "3.prems" have "l = l' \<or> l \<in> set (m # ls)" by simp
  then show ?case
  proof
    assume "l = l'"
    then show ?thesis by (simp add: sublist_append_rightI prefix_imp_sublist)
  next
    assume "l \<in> set (m # ls)"
    from "3.IH" [OF this] have "sublist l (join sep (m # ls))" .
    then obtain ps ss where "join sep (m # ls) = ps @ l @ ss" by (auto simp: sublist_def)
    then have "l' @ sep @ join sep (m # ls) = (l' @ sep @ ps) @ l @ ss" by simp
    then have "sublist l (l' @ sep @ join sep (m # ls))" unfolding sublist_def by blast
    then show ?thesis by simp
  qed
qed

lemma sublist_after_blanks:
  "sublist p (m @ r) \<Longrightarrow> \<forall>c \<in> set m. blank c \<Longrightarrow> \<forall>c \<in> set p. \<not> blank c \<Longrightarrow> p \<noteq> [] \<Longrightarrow> sublist p r"
proof (induction m)
  case Nil
  then show ?case by simp
next
  case (Cons b m)
  from Cons.prems(1) have "prefix p (b # m @ r) \<or> sublist p (m @ r)"
    by (simp add: sublist_Cons_right)
  then show ?case
  proof
    assume "prefix p (b # m @ r)"
    with Cons.prems(4) have "hd p = b" by (cases p) auto
    with Cons.prems(2,3,4) show ?thesis by (cases p) auto
  next
    assume "sublist p (m @ r)"
    with Cons show ?thesis by simp
  qed
qed

lemma narrow_margin_prefix: "prefix (narrow_margin m i) m"
  by (simp add: narrow_margin_def longest_common_prefix_prefix1)

lemma foldl_narrow_margin_prefix: "prefix (foldl narrow_margin m is) m"
proof (induction "is" arbitrary: m)
  case Nil
  then show ?case by simp
next
  case (Cons i "is")
  from Cons.IH [of "narrow_margin m i"] narrow_margin_prefix [of m i]
  show ?case by (auto intro: prefix_order.trans)
qed

lemma sublist_dedent:
  assumes sub: "sublist p s" and chars: "\<forall>c \<in> set p. \<not> blank c \<and> c \<noteq> newline" and ne: "p \<noteq> []"
  shows "sublist p (dedent s)"
proof -
  define ls where "ls = map (\<lambda>l. if l \<noteq> [] \<and> list_all blank l then [] else l) (split_lines s)"
  define indents where "indents = map (takeWhile blank) (filter (\<lambda>l. dropWhile blank l \<noteq> []) ls)"
  define margin where "margin = (case indents of [] \<Rightarrow> [] | i # rest \<Rightarrow> foldl narrow_margin i rest)"
  from chars have "newline \<notin> set p" by auto
  from sublist_in_line [OF sub this] obtain l where l: "l \<in> set (split_lines s)" "sublist p l"
    by blast
  from ne obtain a where a: "a \<in> set p" by (cases p) auto
  from l(2) have "set p \<subseteq> set l" by (rule set_mono_sublist)
  with a chars have "a \<in> set l" "\<not> blank a" by auto
  then have "\<not> list_all blank l" by (auto simp: list_all_iff)
  with l(1) have l_in: "l \<in> set ls" by (force simp: ls_def)
  have margin_blank: "\<forall>c \<in> set margin. blank c"
  proof (cases indents)
    case Nil
    then show ?thesis by (simp add: margin_def)
  next
    case (Cons i rest)
    then have "i \<in> set indents" by simp
    then obtain l0 where "i = takeWhile blank l0" by (auto simp: indents_def)
    then have "\<forall>c \<in> set i. blank c" by (auto dest: set_takeWhileD)
    moreover from Cons have "prefix margin i" by (simp add: margin_def foldl_narrow_margin_prefix)
    ultimately show ?thesis by (auto dest: set_mono_prefix)
  qed
  let ?cut = "\<lambda>l. if prefix margin l then drop (length margin) l else l"
  have cut: "sublist p (?cut l)"
  proof (cases "prefix margin l")
    case True
    then obtain r where r: "l = margin @ r" by (auto simp: prefix_def)
    from l(2) r have "sublist p (margin @ r)" by simp
    from sublist_after_blanks [OF this margin_blank _ ne] chars have "sublist p r" by simp
    with True r show ?thesis by simp
  next
    case False
    with l(2) show ?thesis by simp
  qed
  have "sublist p (join [newline] (map ?cut ls))"
  proof -
    from l_in have "?cut l \<in> set (map ?cut ls)" by (rule imageI [of l "set ls" ?cut, simplified set_map [symmetric]])
    from cut sublist_join [OF this] show ?thesis by (rule sublist_trans)
  qed
  moreover have "sublist p (join [newline] ls)"
    using l(2) sublist_join [OF l_in] by (rule sublist_trans)
  ultimately show ?thesis
    unfolding dedent_def Let_def ls_def [symmetric] indents_def [symmetric] margin_def [symmetric]
    by simp
qed

lemma digit_char_digit: "digit_char n \<in> set ''0123456789''"
proof -
  have "n mod 10 < length ''0123456789''" by simp
  then show ?thesis unfolding digit_char_def by (rule nth_mem)
qed

lemma str_nat_digits: "set (str_nat n) \<subseteq> set ''0123456789''"
proof (induction n rule: str_nat.induct)
  case (1 n)
  show ?case
  proof (cases "n < 10")
    case True
    then have "str_nat n = [digit_char n]" by (simp add: str_nat.simps)
    with digit_char_digit [of n] show ?thesis by simp
  next
    case False
    then have "str_nat n = str_nat (n div 10) @ [digit_char n]" by (subst str_nat.simps) simp
    with "1.IH" [OF False] digit_char_digit [of n] show ?thesis by simp
  qed
qed

lemma str_nat_nonempty: "str_nat n \<noteq> []"
  by (subst str_nat.simps) simp

lemma str_nat_chars: "\<forall>c \<in> set (str_nat n). \<not> blank c \<and> c \<noteq> newline"
  using str_nat_digits [of n] by (auto simp: blank_def newline_def)

lemma add_listings_loop_frame:
  "add_listings_loop e ls d wr w = (r, w') \<Longrightarrow>
     outbox w' = outbox w \<and> config w' = config w \<and> stdout w' = stdout w
     \<and> list_objects w' = list_objects w \<and> clock_reads w' = clock_reads w"
proof (induction ls arbitrary: d wr w)
  case Nil
  then show ?case by auto
next
  case (Cons l ls)
  show ?case
  proof (cases "does_cell_exist_with_value e w (url l)")
    case True
    with Cons.prems have "add_listings_loop e ls (d + 1) wr w = (r, w')" by simp
    from Cons.IH [OF this] show ?thesis .
  next
    case False
    show ?thesis
    proof (cases "build_row e l")
      case (Inl err)
      with False Cons.prems show ?thesis by auto
    next
      case (Inr row)
      with False Cons.prems
      have "add_listings_loop e ls d (wr + 1) (w\<lparr>worksheet := insert_row row 2 (worksheet w)\<rparr>)
              = (r, w')" by simp
      from Cons.IH [OF this] show ?thesis by simp
    qed
  qed
qed

lemma add_listings_frame:
  "add_listings e ls w = (r, w') \<Longrightarrow> outbox w' = outbox w \<and> config w' = config w"
  unfolding add_listings_def by (auto dest!: add_listings_loop_frame simp: py_print_def)

lemma sublist_message_template:
  "sublist (str_nat eligible) (message_template eligible written duplicates sheet)"
  "sublist (str_nat written) (message_template eligible written duplicates sheet)"
  "sublist (str_nat duplicates) (message_template eligible written duplicates sheet)"
proof -
  let ?m = "message_template eligible written duplicates sheet"
  have "\<exists>ps ss. ?m = ps @ str_nat eligible @ ss"
    unfolding message_template_def by (metis append.assoc)
  then show "sublist (str_nat eligible) ?m" by (simp add: sublist_def)
  have "\<exists>ps ss. ?m = ps @ str_nat written @ ss"
    unfolding message_template_def by (metis append.assoc)
  then show "sublist (str_nat written) ?m" by (simp add: sublist_def)
  have "\<exists>ps ss. ?m = ps @ str_nat duplicates @ ss"
    unfolding message_template_def by (metis append.assoc)
  then show "sublist (str_nat duplicates) ?m" by (simp add: sublist_def)
qed

lemma message_counts:
  "sublist (str_nat eligible) (dedent (message_template eligible written duplicates sheet))
   \<and> sublist (str_nat written) (dedent (message_template eligible written duplicates sheet))
   \<and> sublist (str_nat duplicates) (dedent (message_template eligible written duplicates sheet))"
  by (intro conjI sublist_dedent sublist_message_template str_nat_chars str_nat_nonempty)

text \<open>
  C9. When \<^verbatim>\<open>add_listings\<close> returns the counters \<open>written\<close> and \<open>duplicates\<close>,
  \<^verbatim>\<open>process_listings\<close> returns too. If \<open>written\<close> is 0 (or the configuration has no
  \<^verbatim>\<open>mailer\<close> section) nothing is handed to the mailer; if \<open>written\<close> is at least 1 and
  there is a \<^verbatim>\<open>mailer\<close> section, exactly one message is handed to a mailer built from that
  section. The message holds the number of eligible listings, the written count and the
  duplicate count in decimal.
\<close>

theorem process_listings_notifies_once:
  assumes "add_listings e listings w = (Inr (written, duplicates), w1)"
  shows "\<exists>w2 message.
           process_listings e listings w = (Inr (), w2)
         \<and> message = dedent (message_template (length listings) written duplicates (sheet_name e))
         \<and> sublist (str_nat (length listings)) message
         \<and> sublist (str_nat written) message
         \<and> sublist (str_nat duplicates) message
         \<and> (written = 0 \<longrightarrow> outbox w2 = outbox w)
         \<and> (\<not> has_section (config w) ''mailer'' \<longrightarrow> outbox w2 = outbox w)
         \<and> (1 \<le> written \<and> has_section (config w) ''mailer'' \<longrightarrow>
              (\<exists>its. config_items (config w) ''mailer'' = Inr its
                   \<and> outbox w2 = outbox w @ [(dict its, message)]))"
proof -
  define message where
    "message = dedent (message_template (length listings) written duplicates (sheet_name e))"
  let ?w2 = "py_print message w1"
  from add_listings_frame [OF assms] have ob: "outbox w1 = outbox w" and cf: "config w1 = config w"
    by simp_all
  have counts: "sublist (str_nat (length listings)) message \<and> sublist (str_nat written) message
                \<and> sublist (str_nat duplicates) message"
    unfolding message_def by (rule message_counts)
  show ?thesis
  proof (cases "has_section (config w) ''mailer'' \<and> written \<noteq> 0")
    case False
    with assms cf have "process_listings e listings w = (Inr (), ?w2)"
      by (auto simp: process_listings_def message_def py_print_def Let_def)
    moreover from ob have "outbox ?w2 = outbox w" by (simp add: py_print_def)
    ultimately show ?thesis using counts False message_def by auto
  next
    case True
    then obtain its where its: "config_items (config w) ''mailer'' = Inr its"
      by (auto simp: has_section_def config_items_def)
    with assms cf True have "process_listings e listings w = (Inr (), send_mail (dict its) message ?w2)"
      by (auto simp: process_listings_def message_def py_print_def Let_def)
    moreover from ob have "outbox (send_mail (dict its) message ?w2) = outbox w @ [(dict its, message)]"
      by (simp add: send_mail_def py_print_def)
    ultimately show ?thesis using counts True its message_def by auto
  qed
qed


lemma split_lines_line:
  "newline \<notin> set l \<Longrightarrow> split_lines (l @ newline # rest) = l # split_lines rest"
  by (induction l) auto

lemma split_lines_last: "newline \<notin> set l \<Longrightarrow> split_lines l = [l]"
  by (induction l) auto

lemma example_message:
  "dedent (message_template 2 1 1 ''Sheet1'')
      = [newline] @ ''2 eligible properties were found.''
         @ [newline] @ ''1 new properties were added to the worksheet Sheet1.''
         @ [newline] @ ''1 properties already existed on the sheet and were ignored.''
         @ [newline]"
proof -
  let ?a = "replicate 12 (CHR '' '') @ ''2 eligible properties were found.''"
  let ?b = "replicate 12 (CHR '' '') @ ''1 new properties were added to the worksheet Sheet1.''"
  let ?c = "replicate 12 (CHR '' '') @ ''1 properties already existed on the sheet and were ignored.''"
  let ?d = "replicate 12 (CHR '' '')"
  have m: "message_template 2 1 1 ''Sheet1'' = [] @ newline # ?a @ newline # ?b @ newline # ?c @ newline # ?d"
    by (simp add: message_template_def str_nat.simps digit_char_def)
  have nl: "newline \<notin> set []" "newline \<notin> set ?a" "newline \<notin> set ?b" "newline \<notin> set ?c" "newline \<notin> set ?d"
    by (simp_all add: newline_def)
  have "split_lines (message_template 2 1 1 ''Sheet1'') = [[], ?a, ?b, ?c, ?d]"
    unfolding m
    by (simp only: split_lines_line [OF nl(1)] split_lines_line [OF nl(2)] split_lines_line [OF nl(3)]
          split_lines_line [OF nl(4)] split_lines_last [OF nl(5)])
  then show ?thesis
    by (simp add: dedent_def blank_def narrow_margin_def Let_def numeral_eq_Suc)
qed

theorem process_listings_notifies_once_witness:
  "fst (add_listings example_env [example_listing ''u1'' None, example_listing ''u2'' None]
          example_world) = Inr (1, 1)
   \<and> (1::nat) \<le> 1
   \<and> has_section (config example_world) ''mailer''
   \<and> outbox (snd (process_listings example_env
                    [example_listing ''u1'' None, example_listing ''u2'' None] example_world))
     = [([(''to'', ''me@example.test'')],
         [newline] @ ''2 eligible properties were found.''
         @ [newline] @ ''1 new properties were added to the worksheet Sheet1.''
         @ [newline] @ ''1 properties already existed on the sheet and were ignored.''
         @ [newline])]
   \<and> fst (add_listings example_env [example_listing ''u2'' None] example_world) = Inr (0, 1)
   \<and> outbox (snd (process_listings example_env [example_listing ''u2'' None] example_world)) = []
   \<and> \<not> has_section (config (example_world_with_filters [])) ''mailer''
   \<and> fst (add_listings example_env [example_listing ''u1'' None] (example_world_with_filters []))
       = Inr (1, 0)
   \<and> outbox (snd (process_listings example_env [example_listing ''u1'' None]
                    (example_world_with_filters []))) = []"
proof -
  let ?ls = "[example_listing ''u1'' None, example_listing ''u2'' None]"
  have run: "fst (add_listings example_env ?ls example_world) = Inr (1, 1)"
    by (simp add: sheet_defs example_defs)
  then have h: "add_listings example_env ?ls example_world
                  = (Inr (1, 1), snd (add_listings example_env ?ls example_world))"
    by (simp add: prod_eq_iff)
  have sec: "has_section (config example_world) ''mailer''"
    by (simp add: has_section_def example_defs)
  have its: "config_items (config example_world) ''mailer'' = Inr [(''to'', ''me@example.test'')]"
    by (simp add: config_items_def example_defs)
  from process_listings_notifies_once [OF h] sec its
  obtain w2 where "process_listings example_env ?ls example_world = (Inr (), w2)"
    and "outbox w2 = outbox example_world
           @ [(dict [(''to'', ''me@example.test'')],
               dedent (message_template (length ?ls) 1 1 (sheet_name example_env)))]"
    by auto
  then have "outbox (snd (process_listings example_env ?ls example_world))
           = [(dict [(''to'', ''me@example.test'')],
               dedent (message_template 2 1 1 ''Sheet1''))]"
    by (simp add: example_defs numeral_2_eq_2)
  moreover have "dict [(''to'', ''me@example.test'')] = [(''to'', ''me@example.test'')]"
    by (simp add: dict_def)
  ultimately have sent: "outbox (snd (process_listings example_env ?ls example_world))
     = [([(''to'', ''me@example.test'')],
         [newline] @ ''2 eligible properties were found.''
         @ [newline] @ ''1 new properties were added to the worksheet Sheet1.''
         @ [newline] @ ''1 properties already existed on the sheet and were ignored.''
         @ [newline])]"
    using example_message by simp
  have run0: "fst (add_listings example_env [example_listing ''u2'' None] example_world) = Inr (0, 1)"
    by (simp add: sheet_defs example_defs)
  then have h0: "add_listings example_env [example_listing ''u2'' None] example_world
      = (Inr (0, 1), snd (add_listings example_env [example_listing ''u2'' None] example_world))"
    by (simp add: prod_eq_iff)
  from process_listings_notifies_once [OF h0]
  obtain w3 where "process_listings example_env [example_listing ''u2'' None] example_world
                     = (Inr (), w3)" and "outbox w3 = outbox example_world"
    by auto
  then have none0: "outbox (snd (process_listings example_env [example_listing ''u2'' None]
                                   example_world)) = []"
    by (simp add: example_defs)
  let ?w = "example_world_with_filters []"
  have nosec: "\<not> has_section (config ?w) ''mailer''"
    by (simp add: has_section_def example_defs)
  have run1: "fst (add_listings example_env [example_listing ''u1'' None] ?w) = Inr (1, 0)"
    by (simp add: sheet_defs example_defs)
  then have h1: "add_listings example_env [example_listing ''u1'' None] ?w
      = (Inr (1, 0), snd (add_listings example_env [example_listing ''u1'' None] ?w))"
    by (simp add: prod_eq_iff)
  from process_listings_notifies_once [OF h1] nosec
  obtain w4 where "process_listings example_env [example_listing ''u1'' None] ?w = (Inr (), w4)"
    and "outbox w4 = outbox ?w"
    by auto
  then have none1: "outbox (snd (process_listings example_env [example_listing ''u1'' None] ?w)) = []"
    by (simp add: example_defs)
  from run sec sent run0 none0 nosec run1 none1 show ?thesis by simp
qed

subsection \<open>A fetch that fails\<close>

lemma scrape_locations_append:
  "scrape_locations e (xs @ ys) listings w =
     (case scrape_locations e xs listings w of
        (Inl err, w1) \<Rightarrow> (Inl err, w1)
      | (Inr found, w1) \<Rightarrow> scrape_locations e ys found w1)"
proof (induction xs arbitrary: listings w)
  case Nil
  then show ?case by simp
next
  case (Cons x xs)
  show ?case
  proof (cases "build_search_url e x w")
    case (Pair r w1)
    show ?thesis
    proof (cases r)
      case (Inl err)
      with Pair show ?thesis by simp
    next
      case (Inr search_url)
      show ?thesis
      proof (cases "scrape e search_url w1")
        case scr: (Pair r' w2)
        show ?thesis
        proof (cases r')
          case (Inl err)
          with Pair Inr scr show ?thesis by simp
        next
          case found: (Inr found)
          with Pair Inr scr Cons.IH [of "listings @ found" w2] show ?thesis by simp
        qed
      qed
    qed
  qed
qed

lemma scrape_fetch_failure: "http_get e u = Inl err \<Longrightarrow> scrape e u w = (Inl err, w)"
  by (simp add: scrape_def)

lemma same_bodies_cases:
  assumes "same_bodies g h"
  shows "(\<exists>err. g u = Inl err \<and> h u = Inl err)
       \<or> (\<exists>r r'. g u = Inr r \<and> h u = Inr r' \<and> response_text r = response_text r')"
proof -
  from assms have eq: "map_sum id response_text (g u) = map_sum id response_text (h u)"
    by (simp add: same_bodies_def)
  show ?thesis
  proof (cases "g u")
    case (Inl err)
    with eq show ?thesis by (cases "h u") auto
  next
    case (Inr r)
    with eq show ?thesis by (cases "h u") auto
  qed
qed

lemma scrape_details_same_bodies:
  assumes "same_bodies g (http_get e)"
  shows "scrape_details (e\<lparr>http_get := g\<rparr>) l w = scrape_details e l w"
  using same_bodies_cases [OF assms, of "url l"]
  by (auto simp: scrape_details_def read_clock_def Let_def)

lemma scrape_all_details_same_bodies:
  assumes "same_bodies g (http_get e)"
  shows "scrape_all_details (e\<lparr>http_get := g\<rparr>) ls w = scrape_all_details e ls w"
  by (induction ls arbitrary: w)
     (simp_all add: scrape_details_same_bodies [OF assms] split: prod.splits sum.splits)

lemma scrape_same_bodies:
  assumes "same_bodies g (http_get e)"
  shows "scrape (e\<lparr>http_get := g\<rparr>) u w = scrape e u w"
  using same_bodies_cases [OF assms, of u]
  by (auto simp: scrape_def Let_def scrape_all_details_same_bodies [OF assms])

lemma build_search_url_http [simp]:
  "build_search_url (e\<lparr>http_get := g\<rparr>) i w = build_search_url e i w"
  by (simp add: build_search_url_def Let_def split: sum.splits prod.splits)

lemma scrape_locations_same_bodies:
  assumes "same_bodies g (http_get e)"
  shows "scrape_locations (e\<lparr>http_get := g\<rparr>) ids listings w = scrape_locations e ids listings w"
  by (induction ids arbitrary: listings w)
     (simp_all add: scrape_same_bodies [OF assms] split: prod.splits sum.splits)

text \<open>
  C4, as the code has it. Nothing in the code catches an exception of \<^verbatim>\<open>requests.get\<close>: when
  the fetch of one location's search page does not complete, \<^verbatim>\<open>scrape_listings\<close> raises that
  exception at that location, whatever the locations before it gave and whatever
  locations come after it; the run stops there. A response with a non-success status is
  no failure to the code, which reads only the text of a response: on two sites that
  differ in status codes only, \<^verbatim>\<open>scrape_listings\<close> does the same.
\<close>

theorem fetch_failure_aborts_the_run:
  "(scrape_locations e before [] w = (Inr found, w1)
      \<and> build_search_url e identifier w1 = (Inr search_url, w2)
      \<and> http_get e search_url = Inl err
     \<longrightarrow> scrape_listings e (before @ identifier # rest) w = (Inl err, w2))
   \<and> (same_bodies g (http_get e)
     \<longrightarrow> scrape_listings (e\<lparr>http_get := g\<rparr>) location_identifiers w
           = scrape_listings e location_identifiers w)"
proof (intro conjI impI)
  assume "scrape_locations e before [] w = (Inr found, w1)
      \<and> build_search_url e identifier w1 = (Inr search_url, w2)
      \<and> http_get e search_url = Inl err"
  then have a: "scrape_locations e before [] w = (Inr found, w1)"
    and b: "build_search_url e identifier w1 = (Inr search_url, w2)"
    and c: "http_get e search_url = Inl err" by simp_all
  from b c have "scrape_locations e (identifier # rest) found w1 = (Inl err, w2)"
    by (simp add: scrape_fetch_failure)
  with a have "scrape_locations e (before @ identifier # rest) [] w = (Inl err, w2)"
    by (simp add: scrape_locations_append)
  then show "scrape_listings e (before @ identifier # rest) w = (Inl err, w2)"
    by (simp add: scrape_listings_def)
next
  assume "same_bodies g (http_get e)"
  then show "scrape_listings (e\<lparr>http_get := g\<rparr>) location_identifiers w
           = scrape_listings e location_identifiers w"
    by (simp add: scrape_listings_def scrape_locations_same_bodies)
qed

theorem fetch_failure_aborts_the_run_witness:
  "scrape_locations example_env [] [] example_world = (Inr [], example_world)
   \<and> fst (build_search_url example_env ''REGION^9'' example_world)
     = Inr ''https://example.test/find.html?availableafternweeks=7&radius=1&locationIdentifier=REGION%5E9''
   \<and> http_get example_env
        ''https://example.test/find.html?availableafternweeks=7&radius=1&locationIdentifier=REGION%5E9''
     = Inl (ConnectionError
        ''https://example.test/find.html?availableafternweeks=7&radius=1&locationIdentifier=REGION%5E9'')
   \<and> fst (scrape_listings example_env ([] @ ''REGION^9'' # [''REGION^1'']) example_world)
     = Inl (ConnectionError
        ''https://example.test/find.html?availableafternweeks=7&radius=1&locationIdentifier=REGION%5E9'')
   \<and> same_bodies example_site_500 (http_get example_env)
   \<and> scrape_listings (example_env\<lparr>http_get := example_site_500\<rparr>) [''REGION^1''] example_world
     = scrape_listings example_env [''REGION^1''] example_world"
proof -
  let ?u = "''https://example.test/find.html?availableafternweeks=7&radius=1&locationIdentifier=REGION%5E9''"
  have a: "scrape_locations example_env [] [] example_world = (Inr [], example_world)" by simp
  have b: "fst (build_search_url example_env ''REGION^9'' example_world) = Inr ?u"
    by (simp add: scrape_defs example_defs)
  then have b': "build_search_url example_env ''REGION^9'' example_world
                   = (Inr ?u, snd (build_search_url example_env ''REGION^9'' example_world))"
    by (simp add: prod_eq_iff)
  have c: "http_get example_env ?u = Inl (ConnectionError ?u)"
    by (simp add: example_defs)
  have d: "same_bodies example_site_500 (http_get example_env)"
    unfolding same_bodies_def
  proof
    fix u
    show "map_sum id response_text (example_site_500 u)
            = map_sum id response_text (http_get example_env u)"
      by (cases "example_site u") (simp_all add: example_site_500_def example_env_def)
  qed
  from fetch_failure_aborts_the_run [of example_env "[]" example_world "[]" example_world
      "''REGION^9''" ?u "snd (build_search_url example_env ''REGION^9'' example_world)"
      "ConnectionError ?u" "[''REGION^1'']" example_site_500 "[''REGION^1'']"] a b' c d
  have "scrape_listings example_env ([] @ ''REGION^9'' # [''REGION^1'']) example_world
          = (Inl (ConnectionError ?u), snd (build_search_url example_env ''REGION^9'' example_world))"
    and "scrape_listings (example_env\<lparr>http_get := example_site_500\<rparr>) [''REGION^1''] example_world
          = scrape_listings example_env [''REGION^1''] example_world"
    by blast+
  with a b c d show ?thesis by simp
qed

text \<open>
  C4, as the claim states it, fails: with the example site, the search for \<^verbatim>\<open>REGION^1\<close>
  alone returns two listings, and the search for \<^verbatim>\<open>REGION^9\<close> (whose fetch does not
  complete) and then \<^verbatim>\<open>REGION^1\<close> raises \<^verbatim>\<open>ConnectionError\<close>, returns no listing and leaves
  \<^verbatim>\<open>REGION^1\<close> unprocessed: nothing was printed and the clock was not read.
\<close>

theorem fetch_failure_counterexample:
  "fst (scrape_listings example_env [''REGION^1''] example_world)
     = Inr [example_listing ''u1'' (Some ''22/12/2026''), example_listing ''u2'' (Some ''Now'')]
   \<and> scrape_listings example_env [''REGION^9'', ''REGION^1''] example_world
     = (Inl (ConnectionError
          ''https://example.test/find.html?availableafternweeks=7&radius=1&locationIdentifier=REGION%5E9''),
        example_world\<lparr>list_objects :=
          [[(''availableafternweeks'', ''7''), (''radius'', ''1''), (''locationIdentifier'', ''REGION^9'')]]\<rparr>)"
proof -
  let ?A = "example_listing ''u1'' (Some ''22/12/2026'')"
  let ?B = "example_listing ''u2'' (Some ''Now'')"
  have agg: "fst (scrape_locations example_env [''REGION^1''] [] example_world) = Inr [?A, ?B, ?A]"
    by (simp add: scrape_defs example_defs)
  obtain r w1 where loop: "scrape_locations example_env [''REGION^1''] [] example_world = (r, w1)"
    by (cases "scrape_locations example_env [''REGION^1''] [] example_world")
  with agg have r: "r = Inr [?A, ?B, ?A]" by simp
  have "scrape_listings example_env [''REGION^1''] example_world
          = (Inr (remove_duplicate_listings [?A, ?B, ?A]), w1)"
    by (simp only: scrape_listings_def loop r prod.case sum.case)
  then have one: "fst (scrape_listings example_env [''REGION^1''] example_world) = Inr [?A, ?B]"
    by (simp add: remove_duplicate_listings_def example_listing_def)
  have two: "scrape_listings example_env [''REGION^9'', ''REGION^1''] example_world
     = (Inl (ConnectionError
          ''https://example.test/find.html?availableafternweeks=7&radius=1&locationIdentifier=REGION%5E9''),
        example_world\<lparr>list_objects :=
          [[(''availableafternweeks'', ''7''), (''radius'', ''1''), (''locationIdentifier'', ''REGION^9'')]]\<rparr>)"
    by (simp add: scrape_defs example_defs)
  from one two show ?thesis by simp
qed

subsection \<open>The availability of a listing\<close>

lemma strptime_dmy_shape:
  assumes "strptime_dmy s = Inr d"
  shows "\<exists>ds ms ys. s = ds @ ''/'' @ ms @ ''/'' @ ys
           \<and> match_d ds = Some (day d) \<and> match_m ms = Some (month d) \<and> match_Y ys = Some (year d)
           \<and> make_date (year d) (month d) (day d) = Inr d"
proof -
  let ?P = "\<lambda>c. \<not> slash c"
  from assms obtain c1 r1 where r1: "dropWhile ?P s = c1 # r1"
    by (cases "dropWhile ?P s") (auto simp: strptime_dmy_def)
  from assms r1 obtain c2 r2 where r2: "dropWhile ?P r1 = c2 # r2"
    by (cases "dropWhile ?P r1") (auto simp: strptime_dmy_def)
  from assms r1 r2 obtain dd mm yy where
    m: "match_d (takeWhile ?P s) = Some dd" "match_m (takeWhile ?P r1) = Some mm" "match_Y r2 = Some yy"
    and mk: "make_date yy mm dd = Inr d"
    by (auto simp: strptime_dmy_def split: option.splits)
  from mk have d: "d = \<lparr>year = yy, month = mm, day = dd\<rparr>"
    by (auto simp: make_date_def split: if_splits)
  from r1 have s: "s = takeWhile ?P s @ c1 # r1" and c1: "c1 = CHR ''/''"
    by (auto simp: dropWhile_eq_Cons_conv slash_def)
  from r2 have r: "r1 = takeWhile ?P r1 @ c2 # r2" and c2: "c2 = CHR ''/''"
    by (auto simp: dropWhile_eq_Cons_conv slash_def)
  from s r c1 c2 have "s = takeWhile ?P s @ ''/'' @ takeWhile ?P r1 @ ''/'' @ r2" by simp
  with m mk d show ?thesis by auto
qed

lemma make_date_error: "make_date y m d = Inl err \<Longrightarrow> err = ValueError"
  by (simp add: make_date_def split: if_splits)

lemma strptime_dmy_error:
  assumes "strptime_dmy s = Inl err"
  shows "err = ValueError"
proof (cases "dropWhile (\<lambda>c. \<not> slash c) s")
  case Nil
  with assms show ?thesis by (simp add: strptime_dmy_def)
next
  case r1: (Cons c1 r1)
  show ?thesis
  proof (cases "dropWhile (\<lambda>c. \<not> slash c) r1")
    case Nil
    with assms r1 show ?thesis by (simp add: strptime_dmy_def)
  next
    case r2: (Cons c2 r2)
    show ?thesis
    proof (cases "match_d (takeWhile (\<lambda>c. \<not> slash c) s)")
      case None
      with assms r1 r2 show ?thesis by (simp add: strptime_dmy_def)
    next
      case d: (Some dd)
      show ?thesis
      proof (cases "match_m (takeWhile (\<lambda>c. \<not> slash c) r1)")
        case None
        with assms r1 r2 d show ?thesis by (simp add: strptime_dmy_def)
      next
        case m: (Some mm)
        show ?thesis
        proof (cases "match_Y r2")
          case None
          with assms r1 r2 d m show ?thesis by (simp add: strptime_dmy_def)
        next
          case (Some yy)
          with assms r1 r2 d m have "make_date yy mm dd = Inl err" by (simp add: strptime_dmy_def)
          then show ?thesis by (rule make_date_error)
        qed
      qed
    qed
  qed
qed

lemma strptime_dmy_no_slash:
  assumes "\<forall>c \<in> set s. \<not> slash c"
  shows "strptime_dmy s = Inl ValueError"
proof -
  from assms have h: "dropWhile (\<lambda>c. \<not> slash c) s = []" by simp
  show ?thesis unfolding strptime_dmy_def h by simp
qed

lemma lower_char_slash: "slash c \<Longrightarrow> lower_char c = c"
  by (simp add: slash_def lower_char_def)

lemma strptime_dmy_now: assumes "lower s = ''now''" shows "strptime_dmy s = Inl ValueError"
proof (rule strptime_dmy_no_slash, rule ballI)
  fix c assume c: "c \<in> set s"
  show "\<not> slash c"
  proof
    assume sl: "slash c"
    from c have "lower_char c \<in> set (lower s)" by (simp add: lower_def)
    with sl assms have "c \<in> set ''now''" by (simp add: lower_char_slash)
    with sl show False by (auto simp: slash_def)
  qed
qed

lemma digit_val_digit_char: "digit_val (digit_char n) = n mod 10"
proof -
  have "list_all (\<lambda>k. digit_val (digit_char k) = k) [0..<10]" by code_simp
  moreover have "n mod 10 \<in> set [0..<10]" by simp
  ultimately have "digit_val (digit_char (n mod 10)) = n mod 10" by (simp only: list_all_iff)
  then show ?thesis by (simp add: digit_char_def)
qed

lemma digits_val_snoc: "digits_val (s @ [c]) = 10 * digits_val s + digit_val c"
  by (simp add: digits_val_def)

lemma digits_val_str_nat: "digits_val (str_nat n) = n"
proof (induction n rule: str_nat.induct)
  case (1 n)
  show ?case
  proof (cases "n < 10")
    case True
    then have "str_nat n = [digit_char n]" by (simp add: str_nat.simps)
    with True show ?thesis by (simp add: digits_val_def digit_val_digit_char)
  next
    case False
    then have "str_nat n = str_nat (n div 10) @ [digit_char n]" by (subst str_nat.simps) simp
    with "1.IH" [OF False] show ?thesis by (simp add: digits_val_snoc digit_val_digit_char)
  qed
qed

lemma length_str_nat: "n < 10 ^ k \<Longrightarrow> 1 \<le> k \<Longrightarrow> length (str_nat n) \<le> k"
proof (induction n arbitrary: k rule: str_nat.induct)
  case (1 n)
  show ?case
  proof (cases "n < 10")
    case True
    then have "str_nat n = [digit_char n]" by (simp add: str_nat.simps)
    with "1.prems" show ?thesis by simp
  next
    case False
    then have s: "str_nat n = str_nat (n div 10) @ [digit_char n]" by (subst str_nat.simps) simp
    from "1.prems" obtain j where kj: "k = Suc j" by (cases k) auto
    have "1 \<le> j"
    proof (rule ccontr)
      assume "\<not> 1 \<le> j"
      then have "j = 0" by simp
      with kj "1.prems" False show False by simp
    qed
    with kj have j: "k = Suc j" "1 \<le> j" by simp_all
    with "1.prems" have "n < 10 ^ j * 10" by simp
    then have "n div 10 < 10 ^ j" by (rule less_mult_imp_div_less)
    from "1.IH" [OF False this j(2)] s j show ?thesis by simp
  qed
qed

lemma digits_val_zeros: "digits_val (replicate k (CHR ''0'') @ s) = digits_val s"
proof -
  have "foldl (\<lambda>acc c. 10 * acc + digit_val c) 0 (replicate k (CHR ''0'')) = 0"
    by (induction k) (simp_all add: digit_val_def)
  then show ?thesis by (simp add: digits_val_def)
qed

lemma match_Y_pad4: assumes "y \<le> 9999" shows "match_Y (pad4 y) = Some y"
proof -
  from assms have "y < 10 ^ 4" by simp
  then have len: "length (str_nat y) \<le> 4" by (rule length_str_nat) simp
  then have "length (pad4 y) = 4" by (simp add: pad4_def)
  moreover have "list_all is_digit (pad4 y)"
    unfolding list_all_iff
  proof
    fix c assume "c \<in> set (pad4 y)"
    then have "c = CHR ''0'' \<or> c \<in> set (str_nat y)" by (auto simp: pad4_def)
    then show "is_digit c"
    proof
      assume "c = CHR ''0''"
      then show ?thesis by (simp add: is_digit_def)
    next
      assume "c \<in> set (str_nat y)"
      with str_nat_digits [of y] have "c \<in> set ''0123456789''" by (rule subsetD)
      then show ?thesis by (simp only: is_digit_def)
    qed
  qed
  moreover have "digits_val (pad4 y) = y" by (simp add: pad4_def digits_val_zeros digits_val_str_nat)
  ultimately show ?thesis by (simp add: match_Y_def)
qed

lemma match_d_pad2: assumes "1 \<le> n" "n \<le> 31" shows "match_d (pad2 n) = Some n"
proof -
  have "list_all (\<lambda>k. match_d (pad2 k) = Some k) [1..<32]" by code_simp
  moreover from assms have "n \<in> set [1..<32]" by simp
  ultimately show ?thesis by (simp only: list_all_iff)
qed

lemma match_m_pad2: assumes "1 \<le> n" "n \<le> 12" shows "match_m (pad2 n) = Some n"
proof -
  have "list_all (\<lambda>k. match_m (pad2 k) = Some k) [1..<13]" by code_simp
  moreover from assms have "n \<in> set [1..<13]" by simp
  ultimately show ?thesis by (simp only: list_all_iff)
qed

lemma digit_no_slash: "c \<in> set ''0123456789'' \<Longrightarrow> \<not> slash c"
  by (auto simp: slash_def)

lemma pad2_no_slash: "\<forall>c \<in> set (pad2 n). \<not> slash c"
proof
  fix c assume "c \<in> set (pad2 n)"
  then have "c = CHR ''0'' \<or> c \<in> set (str_nat n)" by (auto simp: pad2_def split: if_splits)
  then show "\<not> slash c"
  proof
    assume "c = CHR ''0''"
    then show ?thesis by (simp add: slash_def)
  next
    assume "c \<in> set (str_nat n)"
    with str_nat_digits [of n] have "c \<in> set ''0123456789''" by (rule subsetD)
    then show ?thesis by (rule digit_no_slash)
  qed
qed

lemma days_in_month_le: "days_in_month y m \<le> 31 \<or> 12 < m"
proof -
  have "list_all (\<lambda>k. [0, 31, 28, 31, 30, 31, 30, 31, 31, 30, 31, 30, 31] ! k \<le> (31::nat)) [0..<13]"
    by code_simp
  then have "m \<le> 12 \<Longrightarrow> [0, 31, 28, 31, 30, 31, 30, 31, 31, 30, 31, 30, 31] ! m \<le> (31::nat)"
    by (simp add: list_all_iff)
  then show ?thesis by (auto simp: days_in_month_def)
qed

lemma strptime_written_dmy:
  assumes "make_date y m dd = Inr d"
  shows "strptime_dmy (written_dmy d) = Inr d"
proof -
  from assms have d: "d = \<lparr>year = y, month = m, day = dd\<rparr>"
    and y: "1 \<le> y" "y \<le> 9999" and m: "1 \<le> m" "m \<le> 12" and dd: "1 \<le> dd" "dd \<le> days_in_month y m"
    by (auto simp: make_date_def split: if_splits)
  from dd(2) m(2) days_in_month_le [of y m] have dd31: "dd \<le> 31" by auto
  let ?P = "\<lambda>c. \<not> slash c"
  let ?r1 = "pad2 m @ CHR ''/'' # pad4 y"
  have s: "written_dmy d = pad2 dd @ CHR ''/'' # ?r1" by (simp add: written_dmy_def d)
  have t1: "takeWhile ?P (written_dmy d) = pad2 dd" and d1: "dropWhile ?P (written_dmy d) = CHR ''/'' # ?r1"
    unfolding s using pad2_no_slash [of dd]
    by (simp_all add: takeWhile_append2 dropWhile_append2 slash_def)
  have t2: "takeWhile ?P ?r1 = pad2 m" and d2: "dropWhile ?P ?r1 = CHR ''/'' # pad4 y"
    using pad2_no_slash [of m]
    by (simp_all add: takeWhile_append2 dropWhile_append2 slash_def)
  show ?thesis
    unfolding strptime_dmy_def d1 t1
    using assms by (simp add: t2 d2 match_d_pad2 [OF dd(1) dd31] match_m_pad2 [OF m] match_Y_pad4 [OF y(2)])
qed

text \<open>
  C2, as the code has it. \<^verbatim>\<open>scrape_details\<close> keeps the availability as the
  letting-information block gives it: the raw text, or \<^verbatim>\<open>None\<close> when the block has none; no
  tagged value is built. The only parser is \<^verbatim>\<open>convert_date\<close>: it raises \<^verbatim>\<open>TypeError\<close> on
  \<^verbatim>\<open>None\<close> and \<^verbatim>\<open>ValueError\<close> on every text it does not parse, the empty text and "now" in
  any case included; a text it parses is a day, a month and a year in this order,
  separated by \<^verbatim>\<open>/\<close>; and it parses every valid date written with two digits for the
  day, two for the month and four for the year.
\<close>

theorem availability_is_raw_text:
  "(http_get e (url l) = Inr r \<longrightarrow>
      (\<exists>l' w'. scrape_details e l w = (Inr l', w')
         \<and> date_available l' = map_of (get_letting_information e (response_text r)) ''date_available''))
   \<and> convert_date None = Inl TypeError
   \<and> convert_date (Some '''') = Inl ValueError
   \<and> (\<forall>s. lower s = ''now'' \<longrightarrow> convert_date (Some s) = Inl ValueError)
   \<and> (\<forall>s err. convert_date (Some s) = Inl err \<longrightarrow> err = ValueError)
   \<and> (\<forall>s d. convert_date (Some s) = Inr d \<longrightarrow>
        (\<exists>ds ms ys. s = ds @ ''/'' @ ms @ ''/'' @ ys
           \<and> match_d ds = Some (day d) \<and> match_m ms = Some (month d) \<and> match_Y ys = Some (year d)))
   \<and> (\<forall>y m dd d. make_date y m dd = Inr d \<longrightarrow> convert_date (Some (written_dmy d)) = Inr d)"
proof (intro conjI allI impI)
  assume "http_get e (url l) = Inr r"
  then show "\<exists>l' w'. scrape_details e l w = (Inr l', w')
         \<and> date_available l' = map_of (get_letting_information e (response_text r)) ''date_available''"
    by (simp add: scrape_details_def read_clock_def Let_def)
next
  show "convert_date None = Inl TypeError" by (simp add: convert_date_def)
next
  show "convert_date (Some '''') = Inl ValueError" by (simp add: convert_date_def strptime_dmy_def)
next
  fix s assume "lower s = ''now''"
  then show "convert_date (Some s) = Inl ValueError" by (simp add: convert_date_def strptime_dmy_now)
next
  fix s err assume "convert_date (Some s) = Inl err"
  then show "err = ValueError" by (simp add: convert_date_def strptime_dmy_error)
next
  fix s d assume "convert_date (Some s) = Inr d"
  then have "strptime_dmy s = Inr d" by (simp add: convert_date_def)
  from strptime_dmy_shape [OF this]
  show "\<exists>ds ms ys. s = ds @ ''/'' @ ms @ ''/'' @ ys
           \<and> match_d ds = Some (day d) \<and> match_m ms = Some (month d) \<and> match_Y ys = Some (year d)"
    by blast
next
  fix y m dd d assume "make_date y m dd = Inr d"
  then show "convert_date (Some (written_dmy d)) = Inr d"
    by (simp add: convert_date_def strptime_written_dmy)
qed

lemmas date_defs =
  convert_date_def strptime_dmy_def slash_def match_Y_def make_date_def days_in_month_def
  is_leap_def digits_val_def digit_val_def is_digit_def nonzero_digit_def

theorem availability_is_raw_text_witness:
  "http_get example_env (url (Listing ''u2'')) = Inr \<lparr>status_code = 404, response_text = ''page of u2''\<rparr>
   \<and> fst (scrape_details example_env (Listing ''u2'') example_world)
       = Inr (example_listing ''u2'' (Some ''Now''))
   \<and> lower ''NoW'' = ''now''
   \<and> convert_date (Some ''NoW'') = Inl ValueError
   \<and> convert_date (Some ''next month'') = Inl ValueError
   \<and> convert_date (Some ''22/12/2026'') = Inr \<lparr>year = 2026, month = 12, day = 22\<rparr>
   \<and> (\<exists>ds ms ys. ''22/12/2026'' = ds @ ''/'' @ ms @ ''/'' @ ys
          \<and> match_d ds = Some 22 \<and> match_m ms = Some 12 \<and> match_Y ys = Some 2026)
   \<and> make_date 2026 12 22 = Inr \<lparr>year = 2026, month = 12, day = 22\<rparr>
   \<and> convert_date (Some (written_dmy \<lparr>year = 2026, month = 12, day = 22\<rparr>))
       = Inr \<lparr>year = 2026, month = 12, day = 22\<rparr>"
proof -
  note inst = availability_is_raw_text [of example_env "Listing ''u2''"
      "\<lparr>status_code = 404, response_text = ''page of u2''\<rparr>" example_world]
  have h1: "http_get example_env (url (Listing ''u2''))
              = Inr \<lparr>status_code = 404, response_text = ''page of u2''\<rparr>"
    by (simp add: example_defs Listing_def)
  have run: "fst (scrape_details example_env (Listing ''u2'') example_world)
       = Inr (example_listing ''u2'' (Some ''Now''))"
    by (simp add: scrape_defs example_defs)
  have h2: "lower ''NoW'' = ''now''" by (simp add: lower_def lower_char_def)
  with inst have c2: "convert_date (Some ''NoW'') = Inl ValueError" by blast
  have c3: "convert_date (Some ''next month'') = Inl ValueError" by (simp add: date_defs)
  have c4: "convert_date (Some ''22/12/2026'') = Inr \<lparr>year = 2026, month = 12, day = 22\<rparr>"
    by (simp add: date_defs)
  from inst c4
  have "\<exists>ds ms ys. ''22/12/2026'' = ds @ ''/'' @ ms @ ''/'' @ ys
          \<and> match_d ds = Some (day \<lparr>year = 2026, month = 12, day = 22\<rparr>)
          \<and> match_m ms = Some (month \<lparr>year = 2026, month = 12, day = 22\<rparr>)
          \<and> match_Y ys = Some (year \<lparr>year = 2026, month = 12, day = 22\<rparr>)"
    by blast
  then have c4': "\<exists>ds ms ys. ''22/12/2026'' = ds @ ''/'' @ ms @ ''/'' @ ys
          \<and> match_d ds = Some 22 \<and> match_m ms = Some 12 \<and> match_Y ys = Some 2026"
    by simp
  have h5: "make_date 2026 12 22 = Inr \<lparr>year = 2026, month = 12, day = 22\<rparr>"
    by (simp add: date_defs)
  with inst have c5: "convert_date (Some (written_dmy \<lparr>year = 2026, month = 12, day = 22\<rparr>))
       = Inr \<lparr>year = 2026, month = 12, day = 22\<rparr>" by blast
  from h1 run h2 c2 c3 c4 c4' h5 c5 show ?thesis by blast
qed

text \<open>
  C2, as the claim states it, fails: the listing scraped from the example page of \<^verbatim>\<open>u2\<close>
  holds the raw text \<^verbatim>\<open>Now\<close> as its availability, and parsing that text, or a text that
  is no date, raises \<^verbatim>\<open>ValueError\<close>.
\<close>

theorem availability_classification_counterexample:
  "fst (scrape_details example_env (Listing ''u2'') example_world)
       = Inr (example_listing ''u2'' (Some ''Now''))
   \<and> date_available (example_listing ''u2'' (Some ''Now'')) = Some ''Now''
   \<and> convert_date (Some ''Now'') = Inl ValueError
   \<and> convert_date (Some ''next month'') = Inl ValueError"
  by (simp add: scrape_defs example_defs date_defs)


subsection \<open>Filtering by lead time\<close>

lemma comprehension_convert_daye:
  "available_after_comprehension convert_daye available_after ls =
     (if list_ex has_date_available ls then Inl (NameError ''convert_daye'') else Inr [])"
  by (induction ls) (simp_all add: convert_daye_def)

lemma source_filter_keeps_nothing:
  "get_listings_available_after_n_weeks e n_weeks ls w = (Inr kept, w') \<Longrightarrow> kept = []"
  by (auto simp: get_listings_available_after_n_weeks_def listings_available_after_def Let_def
                 read_clock_def comprehension_convert_daye
           split: if_splits sum.splits)


text \<open>
  C3 fails on the source. With a lead time of 7 weeks and a clock showing 2 November
  2026, the cutoff is 21 December 2026. A listing available on 22 December 2026, one day
  after the cutoff, has a date available, parses with \<^verbatim>\<open>convert_date\<close> and is later than the
  cutoff, yet \<^verbatim>\<open>get_listings_available_after_n_weeks\<close> (and \<^verbatim>\<open>filter_listings\<close>, which calls it)
  raises \<^verbatim>\<open>NameError\<close>: the comprehension calls \<^verbatim>\<open>convert_daye\<close>. The same body with
  \<^verbatim>\<open>convert_date\<close> in its place returns the listing (and by \<open>comprehension_convert_date\<close>
  filters as the claim says). By \<open>source_filter_keeps_nothing\<close> the function as written
  never returns a listing.
\<close>

theorem filter_boundary_raises_NameError:
  "date_add \<lparr>year = 2026, month = 11, day = 2\<rparr> (7 * 7) = Inr \<lparr>year = 2026, month = 12, day = 21\<rparr>
   \<and> convert_date (Some ''22/12/2026'') = Inr \<lparr>year = 2026, month = 12, day = 22\<rparr>
   \<and> date_gt \<lparr>year = 2026, month = 12, day = 22\<rparr> \<lparr>year = 2026, month = 12, day = 21\<rparr>
   \<and> has_date_available (example_listing ''u1'' (Some ''22/12/2026''))
   \<and> fst (get_listings_available_after_n_weeks example_env 7
            [example_listing ''u1'' (Some ''22/12/2026'')] example_world)
       = Inl (NameError ''convert_daye'')
   \<and> fst (filter_listings example_env [example_listing ''u1'' (Some ''22/12/2026'')] example_world)
       = Inl (NameError ''convert_daye'')
   \<and> fst (listings_available_after convert_date example_env 7
            [example_listing ''u1'' (Some ''22/12/2026'')] example_world)
       = Inr [example_listing ''u1'' (Some ''22/12/2026'')]"
proof -
  let ?l = "example_listing ''u1'' (Some ''22/12/2026'')"
  have a: "date_add \<lparr>year = 2026, month = 11, day = 2\<rparr> (7 * 7)
             = Inr \<lparr>year = 2026, month = 12, day = 21\<rparr>"
    by (simp add: date_add_def toordinal_def fromordinal_def MAXORDINAL_def days_before_year_def
                  days_before_month_def is_leap_def Let_def)
  have b: "convert_date (Some ''22/12/2026'') = Inr \<lparr>year = 2026, month = 12, day = 22\<rparr>"
    by (simp add: date_defs)
  have c: "date_gt \<lparr>year = 2026, month = 12, day = 22\<rparr> \<lparr>year = 2026, month = 12, day = 21\<rparr>"
    by (simp add: date_gt_def)
  have d: "has_date_available ?l"
    using b by (simp add: has_date_available_def classify_availability_def example_listing_def
                          lower_def lower_char_def convert_date_def)
  have today: "dt_date (clock example_env 0) = \<lparr>year = 2026, month = 11, day = 2\<rparr>"
    by (simp add: example_defs)
  have run: "fst (listings_available_after conv example_env 7 [?l] example_world)
               = available_after_comprehension conv \<lparr>year = 2026, month = 12, day = 21\<rparr> [?l]" for conv
    using a by (simp add: listings_available_after_def read_clock_def py_print_def timedelta_weeks_def
                          Let_def example_world_def today)
  have e: "fst (get_listings_available_after_n_weeks example_env 7 [?l] example_world)
             = Inl (NameError ''convert_daye'')"
    unfolding get_listings_available_after_n_weeks_def run using d by (simp add: convert_daye_def)
  have f: "fst (filter_listings example_env [?l] example_world) = Inl (NameError ''convert_daye'')"
    using e by (simp add: filter_listings_def config_get_def lower_def lower_char_def py_int_def
                          strip_def is_space_def int_digits.simps is_digit_def digits_val_def
                          digit_val_def example_world_def example_config_def)
  have g: "fst (listings_available_after convert_date example_env 7 [?l] example_world) = Inr [?l]"
    unfolding run using b c d by (simp add: example_listing_def)
  from a b c d e f g show ?thesis by blast
qed

subsection \<open>No lead time\<close>

lemma filter_listings_empty_value:
  "config_get (config w) ''filters'' ''availableAfterNWeeks'' = Inr [] \<Longrightarrow>
     filter_listings e listings w = (Inr listings, w)"
  by (simp add: filter_listings_def)

lemma filter_listings_option_absent:
  "config_get (config w) ''filters'' ''availableAfterNWeeks'' = Inl err \<Longrightarrow>
     filter_listings e listings w = (Inl err, w)"
  by (simp add: filter_listings_def)

text \<open>
  C5 fails on the source when the option is absent. \<^verbatim>\<open>filter_listings\<close> asks
  \<^verbatim>\<open>config.get("filters", "availableAfterNWeeks")\<close> with no fallback: a \<^verbatim>\<open>filters\<close> section
  without the option raises \<^verbatim>\<open>NoOptionError\<close>, a configuration without the section raises
  \<^verbatim>\<open>NoSectionError\<close>, and only an option that is present with an empty value gives the
  listings back unchanged.
\<close>

theorem filter_listings_without_lead_time:
  "filter_listings e listings (example_world_with_filters [(''radius'', ''1'')])
     = (Inl (NoOptionError ''availableafternweeks'' ''filters''),
        example_world_with_filters [(''radius'', ''1'')])
   \<and> filter_listings e listings (example_world_with_filters [(''availableafternweeks'', ''''), (''radius'', ''1'')])
     = (Inr listings, example_world_with_filters [(''availableafternweeks'', ''''), (''radius'', ''1'')])
   \<and> filter_listings e listings (example_world\<lparr>config := []\<rparr>)
     = (Inl (NoSectionError ''filters''), example_world\<lparr>config := []\<rparr>)"
proof -
  have "config_get (config (example_world_with_filters [(''radius'', ''1'')])) ''filters''
          ''availableAfterNWeeks'' = Inl (NoOptionError ''availableafternweeks'' ''filters'')"
    by (simp add: config_get_def example_defs lower_def lower_char_def)
  moreover have "config_get (config (example_world_with_filters
                     [(''availableafternweeks'', ''''), (''radius'', ''1'')])) ''filters''
          ''availableAfterNWeeks'' = Inr []"
    by (simp add: config_get_def example_defs lower_def lower_char_def)
  moreover have "config_get (config (example_world\<lparr>config := []\<rparr>)) ''filters''
          ''availableAfterNWeeks'' = Inl (NoSectionError ''filters'')"
    by (simp add: config_get_def)
  ultimately show ?thesis
    by (simp add: filter_listings_empty_value filter_listings_option_absent)
qed

subsection \<open>One cutoff for the whole batch\<close>

text \<open>
  An empty batch is returned at once: nothing is printed and the clock is not read.
\<close>

lemma empty_batch_returned_at_once:
  "get_listings_available_after_n_weeks e n_weeks [] w = (Inr [], w)"
  by (simp add: get_listings_available_after_n_weeks_def listings_available_after_def)




end
